theory Spec2Isabelle
  imports Complex_Main "HOL-Library.Word"
begin

section \<open>Numbers and buffers\<close>

text \<open>
  The analyzer of \<^verbatim>\<open>src/utils/audioHelpers.js\<close> works on \<^verbatim>\<open>Uint8Array\<close> buffers and on
  JavaScript numbers. A buffer is a list of 8-bit words. A finite JavaScript number is
  a real number. The code computes in IEEE double precision, where every operation
  rounds its exact result to the nearest double. The temporal smoothing is modelled with
  this rounding (\<open>fl\<close> below), since the order of two smoothed samples can depend on
  it. The other functions are modelled in exact arithmetic, without rounding and
  overflow: their values in the code agree with the model up to the rounding error of
  the doubles. The values that are not finite (\<^verbatim>\<open>NaN\<close>, \<^verbatim>\<open>Infinity\<close>,
  \<^verbatim>\<open>-Infinity\<close>) are kept apart in \<open>jsnum\<close>, at the places where the code can
  produce them from a buffer: a read past the end of an array, a division of zero by
  zero, a power of a negative base and the start values of a running minimum and
  maximum.
\<close>

type_synonym byte = "8 word"

datatype jsnum = Num real | PosInfinity | NegInfinity | NaN

definition byte_val :: "byte \<Rightarrow> real" where
  "byte_val b = real (unat b)"

text \<open>\<^verbatim>\<open>Math.round\<close> rounds to the nearest integer, a half upwards.\<close>

definition Math_round :: "real \<Rightarrow> int" where
  "Math_round x = \<lfloor>x + 1 / 2\<rfloor>"

text \<open>Storing an integer into a \<^verbatim>\<open>Uint8Array\<close> keeps it modulo 256.\<close>

definition to_uint8 :: "int \<Rightarrow> byte" where
  "to_uint8 n = word_of_int n"

text \<open>\<^verbatim>\<open>Math.min\<close> and \<^verbatim>\<open>Math.max\<close> of a running value and a finite sample.\<close>

fun Math_min :: "jsnum \<Rightarrow> real \<Rightarrow> jsnum" where
  "Math_min (Num a) v = Num (min a v)"
| "Math_min PosInfinity v = Num v"
| "Math_min NegInfinity v = NegInfinity"
| "Math_min NaN v = NaN"

fun Math_max :: "jsnum \<Rightarrow> real \<Rightarrow> jsnum" where
  "Math_max (Num a) v = Num (max a v)"
| "Math_max PosInfinity v = PosInfinity"
| "Math_max NegInfinity v = Num v"
| "Math_max NaN v = NaN"

text \<open>The quotient \<^verbatim>\<open>a / n\<close> of a number by an array length.\<close>

definition js_div_length :: "real \<Rightarrow> nat \<Rightarrow> jsnum" where
  "js_div_length a n =
     (if n = 0 then (if a = 0 then NaN else if 0 < a then PosInfinity else NegInfinity)
      else Num (a / real n))"

text \<open>\<^verbatim>\<open>Math.pow(x, 1.5)\<close>: not a number for a negative base.\<close>

definition Math_pow_1_5 :: "real \<Rightarrow> jsnum" where
  "Math_pow_1_5 x = (if x < 0 then NaN else Num (x powr (3 / 2)))"

text \<open>
  Rounding of a real number to the nearest double: 53 significant bits, a tie goes to the
  even significand, and below \<open>2^-1022\<close> the spacing stays \<open>2^-1074\<close>. Overflow to
  \<^verbatim>\<open>Infinity\<close> is not modelled; the smoothing stays below 512 for factors in [0, 1].
\<close>

definition round_half_even :: "real \<Rightarrow> int" where
  "round_half_even z =
     (let f = \<lfloor>z\<rfloor>; d = z - of_int f
      in if d < 1 / 2 then f
         else if 1 / 2 < d then f + 1
         else if even f then f else f + 1)"

definition fl :: "real \<Rightarrow> real" where
  "fl x =
     (if x = 0 then 0
      else let e = max \<lfloor>log 2 \<bar>x\<bar>\<rfloor> (- 1022);
               q = 2 powr (of_int e - 52)
           in q * of_int (round_half_even (x / q)))"

section \<open>Frequencies and bins\<close>

text \<open>
  \<open>getFrequencyForIndex\<close> and \<open>getIndexForFrequency\<close> divide by \<open>fftSize\<close> and by
  \<open>sampleRate\<close>; the model agrees with the code where the divisor is not zero.
\<close>

definition SAMPLE_RATE :: real where
  "SAMPLE_RATE = 44100"

definition FFT_SIZE :: real where
  "FFT_SIZE = 2048"

definition FREQUENCY_BANDS :: "(string \<times> real \<times> real) list" where
  "FREQUENCY_BANDS =
     [(''SUB_BASS'', 20, 60), (''BASS'', 60, 250), (''LOW_MID'', 250, 500),
      (''MID'', 500, 2000), (''HIGH_MID'', 2000, 4000), (''PRESENCE'', 4000, 6000),
      (''BRILLIANCE'', 6000, 20000)]"

definition getFrequencyForIndex :: "real \<Rightarrow> real \<Rightarrow> real \<Rightarrow> real" where
  "getFrequencyForIndex idx fftSize sampleRate = (idx * sampleRate) / fftSize"

definition getIndexForFrequency :: "real \<Rightarrow> real \<Rightarrow> real \<Rightarrow> int" where
  "getIndexForFrequency freq fftSize sampleRate = \<lfloor>(freq * fftSize) / sampleRate\<rfloor>"

section \<open>Band averages\<close>

text \<open>
  The loop \<^verbatim>\<open>for (i = lowIndex; i <= highIndex && i < length; i++)\<close>. The band limits are
  not negative, so with a positive sample rate and transform size the indices are
  natural numbers.
\<close>

function band_loop :: "byte list \<Rightarrow> nat \<Rightarrow> nat \<Rightarrow> real \<Rightarrow> nat \<Rightarrow> real \<times> nat" where
  "band_loop frequencyData i highIndex acc count =
     (if i \<le> highIndex \<and> i < length frequencyData
      then band_loop frequencyData (Suc i) highIndex
             (acc + byte_val (frequencyData ! i)) (Suc count)
      else (acc, count))"
  by pat_completeness auto
termination
  by (relation "measure (\<lambda>(fd, i, h, s, c). length fd - i)") auto

declare band_loop.simps [simp del]

definition band_average :: "byte list \<Rightarrow> real \<Rightarrow> real \<Rightarrow> real \<times> real \<Rightarrow> real" where
  "band_average frequencyData sampleRate fftSize band =
     (let lowIndex = nat (getIndexForFrequency (fst band) fftSize sampleRate);
          highIndex = nat (getIndexForFrequency (snd band) fftSize sampleRate);
          (acc, count) = band_loop frequencyData lowIndex highIndex 0 0
      in if count > 0 then acc / real count else 0)"

text \<open>The key of a band in the result: lower case, the first underscore removed.\<close>

fun remove_first_underscore :: "string \<Rightarrow> string" where
  "remove_first_underscore [] = []"
| "remove_first_underscore (c # cs) =
     (if c = CHR ''_'' then cs else c # remove_first_underscore cs)"

definition lower_char :: "char \<Rightarrow> char" where
  "lower_char c =
     (let n = (of_char c :: nat)
      in if 65 \<le> n \<and> n \<le> 90 then char_of (n + 32) else c)"

definition band_key :: "string \<Rightarrow> string" where
  "band_key name = remove_first_underscore (map lower_char name)"

definition calculateBandAverages :: "byte list \<Rightarrow> real \<Rightarrow> real \<Rightarrow> (string \<times> real) list" where
  "calculateBandAverages frequencyData sampleRate fftSize =
     map (\<lambda>(name, band). (band_key name, band_average frequencyData sampleRate fftSize band))
       FREQUENCY_BANDS"

section \<open>Level: RMS and peak\<close>

text \<open>
  Both functions return 0 for a missing or empty array. A buffer of the model is a list
  and is never missing, so the test of the length remains.
\<close>

fun rms_loop :: "byte list \<Rightarrow> real \<Rightarrow> real" where
  "rms_loop [] acc = acc"
| "rms_loop (x # xs) acc =
     (let normalized = (byte_val x - 128) / 128
      in rms_loop xs (acc + normalized * normalized))"

definition calculateRMS :: "byte list \<Rightarrow> real" where
  "calculateRMS dataArray =
     (if length dataArray = 0 then 0
      else let rms = sqrt (rms_loop dataArray 0 / real (length dataArray))
           in min rms 1)"

fun peak_loop :: "byte list \<Rightarrow> real \<Rightarrow> real" where
  "peak_loop [] peak = peak"
| "peak_loop (x # xs) peak =
     (let normalized = \<bar>(byte_val x - 128) / 128\<bar>
      in peak_loop xs (if normalized > peak then normalized else peak))"

definition calculatePeak :: "byte list \<Rightarrow> real" where
  "calculatePeak dataArray =
     (if length dataArray = 0 then 0 else min (peak_loop dataArray 0) 1)"

section \<open>Temporal smoothing\<close>

text \<open>
  \<open>smoothFrequencyData\<close> has no check of the two lengths. The loop runs over the
  current buffer. Where the previous buffer has ended, \<^verbatim>\<open>previousData[i]\<close> is
  \<^verbatim>\<open>undefined\<close>, the blend is \<^verbatim>\<open>NaN\<close>, and the \<^verbatim>\<open>Uint8Array\<close> stores 0. What the
  previous buffer holds past the end of the current one is never read.

  The blend \<^verbatim>\<open>previousData[i] * smoothingFactor + currentData[i] * (1 - smoothingFactor)\<close>
  is computed in doubles: the difference, the two products and the sum are rounded one
  after the other. \<^verbatim>\<open>Math.round\<close> then rounds the double without error.
\<close>

definition blend :: "byte \<Rightarrow> byte \<Rightarrow> real \<Rightarrow> real" where
  "blend p c smoothingFactor =
     fl (fl (byte_val p * smoothingFactor) + fl (byte_val c * fl (1 - smoothingFactor)))"

fun smooth_loop :: "byte list \<Rightarrow> byte list \<Rightarrow> real \<Rightarrow> byte list" where
  "smooth_loop [] previousData smoothingFactor = []"
| "smooth_loop (c # cs) [] smoothingFactor = 0 # smooth_loop cs [] smoothingFactor"
| "smooth_loop (c # cs) (p # ps) smoothingFactor =
     to_uint8 (Math_round (blend p c smoothingFactor)) # smooth_loop cs ps smoothingFactor"

definition smoothFrequencyData :: "byte list \<Rightarrow> byte list option \<Rightarrow> real \<Rightarrow> byte list" where
  "smoothFrequencyData currentData previousData smoothingFactor =
     (case previousData of
        None \<Rightarrow> currentData
      | Some prev \<Rightarrow> smooth_loop currentData prev smoothingFactor)"

section \<open>Normalisation and logarithmic scaling\<close>

definition normalizeFrequencyData :: "byte list \<Rightarrow> real \<Rightarrow> real list" where
  "normalizeFrequencyData dataArray maxValue = map (\<lambda>b. byte_val b / maxValue) dataArray"

text \<open>
  \<open>applyLogScaling\<close> reads \<^verbatim>\<open>dataArray[scaledIndex] || 0\<close>: an index past the end reads
  as 0. For a buffer of one sample the quotient of the two logarithms is 0 / 0, the
  index is \<^verbatim>\<open>NaN\<close> and the read is 0 as well.
\<close>

definition log_scaled_at :: "byte list \<Rightarrow> nat \<Rightarrow> real" where
  "log_scaled_at dataArray i =
     (let n = length dataArray
      in if n = 1 then 0
         else let logIndex = log 10 (real i + 1) / log 10 (real n);
                  scaledIndex = \<lfloor>logIndex * real n\<rfloor>
              in if 0 \<le> scaledIndex \<and> scaledIndex < int n
                 then byte_val (dataArray ! nat scaledIndex) else 0)"

definition applyLogScaling :: "byte list \<Rightarrow> real list" where
  "applyLogScaling dataArray = map (log_scaled_at dataArray) [0..<length dataArray]"

section \<open>Spectral features\<close>

fun centroid_loop :: "byte list \<Rightarrow> nat \<Rightarrow> real \<Rightarrow> real \<Rightarrow> real \<Rightarrow> real \<Rightarrow> real \<times> real" where
  "centroid_loop [] i fftSize sampleRate weightedSum acc = (weightedSum, acc)"
| "centroid_loop (x # xs) i fftSize sampleRate weightedSum acc =
     (let frequency = getFrequencyForIndex (real i) fftSize sampleRate
      in centroid_loop xs (Suc i) fftSize sampleRate
           (weightedSum + frequency * byte_val x) (acc + byte_val x))"

definition calculateSpectralCentroid :: "byte list \<Rightarrow> real \<Rightarrow> real \<Rightarrow> real" where
  "calculateSpectralCentroid frequencyData sampleRate fftSize =
     (let (weightedSum, acc) = centroid_loop frequencyData 0 fftSize sampleRate 0 0
      in if acc > 0 then weightedSum / acc else 0)"

fun flatness_loop :: "byte list \<Rightarrow> real \<Rightarrow> real \<Rightarrow> real \<times> real" where
  "flatness_loop [] geometricMean arithmeticMean = (geometricMean, arithmeticMean)"
| "flatness_loop (x # xs) geometricMean arithmeticMean =
     (let v = max (byte_val x) (1 / 10000)
      in flatness_loop xs (geometricMean + ln v) (arithmeticMean + v))"

definition calculateSpectralFlatness :: "byte list \<Rightarrow> real" where
  "calculateSpectralFlatness frequencyData =
     (if length frequencyData = 0 then 0
      else let (g, a) = flatness_loop frequencyData 0 0;
               geometricMean = exp (g / real (length frequencyData));
               arithmeticMean = a / real (length frequencyData)
           in if arithmeticMean > 0 then geometricMean / arithmeticMean else 0)"

text \<open>
  The scan of \<open>calculateSpectralRolloff\<close>: the index of the first bin where the running
  sum has reached the target, if there is one.
\<close>

fun rolloff_loop :: "byte list \<Rightarrow> nat \<Rightarrow> real \<Rightarrow> real \<Rightarrow> nat option" where
  "rolloff_loop [] i cumulativeEnergy targetEnergy = None"
| "rolloff_loop (x # xs) i cumulativeEnergy targetEnergy =
     (let c = cumulativeEnergy + byte_val x
      in if c \<ge> targetEnergy then Some i else rolloff_loop xs (Suc i) c targetEnergy)"

definition calculateSpectralRolloff :: "byte list \<Rightarrow> real \<Rightarrow> real \<Rightarrow> real \<Rightarrow> real" where
  "calculateSpectralRolloff frequencyData sampleRate fftSize percentile =
     (let totalEnergy = foldl (\<lambda>acc val. acc + byte_val val) 0 frequencyData;
          targetEnergy = totalEnergy * percentile
      in case rolloff_loop frequencyData 0 0 targetEnergy of
           Some i \<Rightarrow> getFrequencyForIndex (real i) fftSize sampleRate
         | None \<Rightarrow> getFrequencyForIndex (real (length frequencyData) - 1) fftSize sampleRate)"

section \<open>Colours\<close>

text \<open>
  \<open>getFrequencyColor\<close> returns a string built from the numbers, or an object of two
  such strings. The model keeps the numbers that the strings are printed from.
\<close>

datatype color =
    Hsl real real real
  | Rgb int int int
  | Gradient "real \<times> real \<times> real" "real \<times> real \<times> real"

text \<open>\<^verbatim>\<open>a % 2\<close> on numbers: the remainder has the sign of the dividend.\<close>

definition js_rem2 :: "real \<Rightarrow> real" where
  "js_rem2 a = (if a \<ge> 0 then a - 2 * of_int \<lfloor>a / 2\<rfloor> else - (- a - 2 * of_int \<lfloor>- a / 2\<rfloor>))"

definition getFrequencyColor :: "real \<Rightarrow> real \<Rightarrow> string \<Rightarrow> color" where
  "getFrequencyColor frequency intensity mode =
     (let baseHue = (frequency / 20000) * 360;
          saturation = 70 + (intensity * 30);
          lightness = 40 + (intensity * 40)
      in if mode = ''hsl'' then Hsl baseHue saturation lightness
         else if mode = ''rgb'' then
           (let h = baseHue / 360;
                s = saturation / 100;
                l = lightness / 100;
                chroma = (1 - \<bar>2 * l - 1\<bar>) * s;
                x = chroma * (1 - \<bar>js_rem2 (h * 6) - 1\<bar>);
                m = l - chroma / 2;
                (r, g, b) =
                  (if h < 1 / 6 then (chroma, x, 0)
                   else if h < 2 / 6 then (x, chroma, 0)
                   else if h < 3 / 6 then (0, chroma, x)
                   else if h < 4 / 6 then (0, x, chroma)
                   else if h < 5 / 6 then (x, 0, chroma)
                   else (chroma, 0, x))
            in Rgb (Math_round ((r + m) * 255)) (Math_round ((g + m) * 255))
                 (Math_round ((b + m) * 255)))
         else if mode = ''gradient'' then
           Gradient (baseHue, saturation, lightness) (baseHue + 60, saturation, lightness + 20)
         else Hsl baseHue saturation lightness)"

section \<open>Statistics snapshot\<close>

text \<open>
  The object returned by \<open>calculateAudioStats\<close>, its nested groups \<^verbatim>\<open>frequency\<close>,
  \<^verbatim>\<open>level\<close>, \<^verbatim>\<open>bands\<close> and \<^verbatim>\<open>spectral\<close> written as one record.
\<close>

record AudioStats =
  frequency_min :: jsnum
  frequency_max :: jsnum
  frequency_avg :: jsnum
  frequency_total :: real
  level_rms :: real
  level_peak :: real
  level_avg :: real
  bands :: "(string \<times> real) list"
  spectral_centroid :: real
  spectral_flatness :: real
  spectral_rolloff :: real

fun stats_loop :: "byte list \<Rightarrow> jsnum \<Rightarrow> jsnum \<Rightarrow> real \<Rightarrow> jsnum \<times> jsnum \<times> real" where
  "stats_loop [] mn mx acc = (mn, mx, acc)"
| "stats_loop (x # xs) mn mx acc =
     (let v = byte_val x
      in stats_loop xs (Math_min mn v) (Math_max mx v) (acc + v))"

fun time_sum_loop :: "byte list \<Rightarrow> real \<Rightarrow> real" where
  "time_sum_loop [] timeSum = timeSum"
| "time_sum_loop (x # xs) timeSum = time_sum_loop xs (timeSum + byte_val x)"

definition calculateAudioStats :: "byte list \<Rightarrow> byte list option \<Rightarrow> AudioStats" where
  "calculateAudioStats frequencyData timeDomainData =
     (let (mn, mx, acc) = stats_loop frequencyData PosInfinity NegInfinity 0;
          (rms, peak, lavg) =
            (case timeDomainData of
               None \<Rightarrow> (0, 0, 0)
             | Some td \<Rightarrow>
                 if length td > 0
                 then (calculateRMS td, calculatePeak td,
                       time_sum_loop td 0 / real (length td))
                 else (0, 0, 0))
      in \<lparr> frequency_min = mn,
           frequency_max = mx,
           frequency_avg = js_div_length acc (length frequencyData),
           frequency_total = acc,
           level_rms = rms,
           level_peak = peak,
           level_avg = lavg,
           bands = calculateBandAverages frequencyData SAMPLE_RATE FFT_SIZE,
           spectral_centroid = calculateSpectralCentroid frequencyData SAMPLE_RATE FFT_SIZE,
           spectral_flatness = calculateSpectralFlatness frequencyData,
           spectral_rolloff =
             calculateSpectralRolloff frequencyData SAMPLE_RATE FFT_SIZE (85 / 100) \<rparr>)"

section \<open>Bar dataset\<close>

record options =
  smoothing :: real
  logScaling :: bool
  minBarHeight :: real
  maxBarHeight :: real

definition default_options :: options where
  "default_options =
     \<lparr> smoothing = 7 / 10, logScaling = True, minBarHeight = 5 / 100, maxBarHeight = 1 \<rparr>"

record BarDatum =
  index :: nat
  height :: jsnum
  frequency :: real
  rawValue :: real
  angle :: real

text \<open>The inner loop \<^verbatim>\<open>for (j = startIdx; j < endIdx; j++)\<close>.\<close>

function segment_loop :: "real list \<Rightarrow> nat \<Rightarrow> nat \<Rightarrow> real \<Rightarrow> nat \<Rightarrow> real \<times> nat" where
  "segment_loop normalizedData j endIdx acc count =
     (if j < endIdx
      then segment_loop normalizedData (Suc j) endIdx (acc + normalizedData ! j) (Suc count)
      else (acc, count))"
  by pat_completeness auto
termination
  by (relation "measure (\<lambda>(nd, j, e, s, c). e - j)") auto

declare segment_loop.simps [simp del]

definition make_bar :: "real list \<Rightarrow> nat \<Rightarrow> nat \<Rightarrow> options \<Rightarrow> nat \<Rightarrow> BarDatum" where
  "make_bar normalizedData numBars step opts i =
     (let startIdx = i * step;
          endIdx = min (startIdx + step) (length normalizedData);
          (acc, count) = segment_loop normalizedData startIdx endIdx 0 0;
          avgValue = (if count > 0 then acc / real count else 0);
          barHeight = min (max avgValue (minBarHeight opts)) (maxBarHeight opts);
          approxFrequency =
            getFrequencyForIndex (real startIdx + real step / 2) FFT_SIZE SAMPLE_RATE
      in \<lparr> index = i,
           height = Math_pow_1_5 barHeight,
           frequency = approxFrequency,
           rawValue = avgValue,
           angle = (real i / real numBars) * pi * 2 \<rparr>)"

text \<open>The outer loop \<^verbatim>\<open>for (i = 0; i < numBars; i++)\<close>, each turn pushing one bar.\<close>

function bars_loop :: "real list \<Rightarrow> nat \<Rightarrow> nat \<Rightarrow> options \<Rightarrow> nat \<Rightarrow> BarDatum list" where
  "bars_loop normalizedData numBars step opts i =
     (if i < numBars
      then make_bar normalizedData numBars step opts i
             # bars_loop normalizedData numBars step opts (Suc i)
      else [])"
  by pat_completeness auto
termination
  by (relation "measure (\<lambda>(nd, n, st, opts, i). n - i)") auto

declare bars_loop.simps [simp del]

text \<open>
  With \<open>numBars = 0\<close> the step of the code is infinite and the loop body never runs;
  the model has the same empty result.
\<close>

definition createCircularVisualizationData :: "byte list \<Rightarrow> nat \<Rightarrow> options \<Rightarrow> BarDatum list" where
  "createCircularVisualizationData frequencyData numBars opts =
     (let processedData =
            (if logScaling opts then applyLogScaling frequencyData
             else map byte_val frequencyData);
          normalizedData =
            normalizeFrequencyData (map (\<lambda>v. to_uint8 (Math_round v)) processedData) 255;
          step = length normalizedData div numBars
      in bars_loop normalizedData numBars step opts 0)"

section \<open>Recording session\<close>

text \<open>
  The hook \<open>useAudioAnalyzer\<close> keeps published state slots and mutable references.
  The typed arrays live in a store, a map from addresses to contents, since the
  references can share one array: after a tick without a previous frame,
  \<open>previousDataRef\<close> and \<open>dataArrayRef\<close> hold the same array. The references to the
  browser's objects (stream, source node, analyser, audio context, pending animation
  frame) are a flag each, set when the reference is not null.

  \<open>startRecording\<close> waits for the microphone; the model takes the outcome of the
  request as an argument and runs the function in one step, with nothing in between.
  \<open>stopRecording\<close> closes the audio context and clears its reference when the
  browser has closed it; the model clears it at once.
\<close>

record session =
  st_isRecording :: bool
  st_frequencyData :: "byte list option"
  st_audioLevel :: real
  st_audioStats :: "AudioStats option"
  st_error :: "string option"
  st_compatibility :: "bool option"
  audioContextRef :: bool
  analyserRef :: bool
  sourceRef :: bool
  streamRef :: bool
  animationFrameRef :: bool
  dataArrayRef :: "nat option"
  timeArrayRef :: "nat option"
  previousDataRef :: "nat option"
  store :: "nat \<Rightarrow> byte list"
  next_address :: nat

definition initial_session :: "bool option \<Rightarrow> session" where
  "initial_session compatible =
     \<lparr> st_isRecording = False, st_frequencyData = None, st_audioLevel = 0,
       st_audioStats = None, st_error = None, st_compatibility = compatible,
       audioContextRef = False, analyserRef = False, sourceRef = False, streamRef = False,
       animationFrameRef = False, dataArrayRef = None, timeArrayRef = None,
       previousDataRef = None, store = (\<lambda>a. []), next_address = 0 \<rparr>"

text \<open>
  The outcome of \<^verbatim>\<open>getUserMedia\<close>: the stream is granted and the analyser reports its
  \<^verbatim>\<open>frequencyBinCount\<close>, or the request is rejected with an error name and message.
\<close>

datatype acquisition = Granted nat | Rejected string string

definition error_message :: "string \<Rightarrow> string \<Rightarrow> string" where
  "error_message name message =
     (if name = ''NotAllowedError''
      then ''Microphone access denied. Please allow microphone permissions.''
      else if name = ''NotFoundError''
      then ''No microphone found. Please connect a microphone.''
      else if name = ''NotReadableError''
      then ''Microphone is already in use by another application.''
      else if name = ''OverconstrainedError''
      then ''Cannot satisfy audio constraints. Try different settings.''
      else if message = [] then ''Failed to access microphone'' else message)"

definition startRecording :: "session \<Rightarrow> acquisition \<Rightarrow> session" where
  "startRecording s outcome =
     (let s1 = s\<lparr>st_error := None\<rparr>
      in if st_compatibility s = Some False
         then s1\<lparr>st_error :=
                  Some (error_message ''Error''
                          ''Browser does not support required audio features'')\<rparr>
         else case outcome of
                Rejected name message \<Rightarrow> s1\<lparr>st_error := Some (error_message name message)\<rparr>
              | Granted bufferLength \<Rightarrow>
                  (let frequencyArray = next_address s1;
                       timeArray = Suc (next_address s1)
                   in s1\<lparr> streamRef := True,
                          audioContextRef := True,
                          analyserRef := True,
                          sourceRef := True,
                          store := (store s1)
                            (frequencyArray := replicate bufferLength 0,
                             timeArray := replicate bufferLength 0),
                          next_address := Suc (Suc (next_address s1)),
                          dataArrayRef := Some frequencyArray,
                          timeArrayRef := Some timeArray,
                          st_isRecording := True,
                          animationFrameRef := True \<rparr>))"

definition stopRecording :: "session \<Rightarrow> session" where
  "stopRecording s =
     s\<lparr> animationFrameRef := False,
        sourceRef := False,
        streamRef := False,
        audioContextRef := False,
        st_isRecording := False,
        st_frequencyData := None,
        st_audioLevel := 0,
        st_audioStats := None,
        analyserRef := False,
        dataArrayRef := None,
        timeArrayRef := None,
        previousDataRef := None \<rparr>"

definition toggleRecording :: "session \<Rightarrow> acquisition \<Rightarrow> session" where
  "toggleRecording s outcome =
     (if st_isRecording s then stopRecording s else startRecording s outcome)"

text \<open>
  \<^verbatim>\<open>getByteFrequencyData\<close> and \<^verbatim>\<open>getByteTimeDomainData\<close> write the analyser's samples
  into the given array, as many as fit.
\<close>

definition fill :: "byte list \<Rightarrow> byte list \<Rightarrow> byte list" where
  "fill array samples = take (length array) samples @ drop (length samples) array"

text \<open>
  One run of \<open>analyzeAudio\<close>, with the frequency and time samples that the analyser
  holds at this frame. The smoothed buffer is a new array; without a previous frame the
  processed data is the array of \<open>dataArrayRef\<close> itself. The smoothing factor is the
  literal \<^verbatim>\<open>0.6\<close>, the double nearest to 6/10.
\<close>

definition analyzeAudio :: "session \<Rightarrow> byte list \<times> byte list \<Rightarrow> session" where
  "analyzeAudio s captured =
     (case (analyserRef s, dataArrayRef s, timeArrayRef s) of
        (True, Some dataArray, Some timeArray) \<Rightarrow>
          (let m1 = (store s)(dataArray := fill (store s dataArray) (fst captured));
               m2 = m1(timeArray := fill (m1 timeArray) (snd captured));
               (processed, m3, next) =
                 (case previousDataRef s of
                    None \<Rightarrow> (dataArray, m2, next_address s)
                  | Some previous \<Rightarrow>
                      (next_address s,
                       m2(next_address s :=
                            smoothFrequencyData (m2 dataArray) (Some (m2 previous)) (fl (6 / 10))),
                       Suc (next_address s)));
               audioLevel = calculateRMS (m3 timeArray);
               stats = calculateAudioStats (m3 processed) (Some (m3 timeArray))
           in s\<lparr> store := m3,
                  next_address := next,
                  previousDataRef := Some processed,
                  st_audioLevel := audioLevel,
                  st_frequencyData := Some (m3 processed),
                  st_audioStats := Some stats,
                  animationFrameRef := True \<rparr>)
      | _ \<Rightarrow> s)"

text \<open>A frame runs the analysis only while an animation frame is pending.\<close>

definition tick :: "session \<Rightarrow> byte list \<times> byte list \<Rightarrow> session" where
  "tick s captured = (if animationFrameRef s then analyzeAudio s captured else s)"

text \<open>
  A session that has run: started with two bins, then two frames analysed. The first
  frame leaves \<open>previousDataRef\<close> on the array of \<open>dataArrayRef\<close>; the second frame
  stores a smoothed array of its own.
\<close>

definition running_example :: session where
  "running_example =
     tick (tick (startRecording (initial_session (Some True)) (Granted 2))
             ([100, 200], [128, 128]))
       ([0, 0], [128, 128])"

text \<open>
  The normalised data that the bar loop of \<open>createCircularVisualizationData\<close> reads,
  named for the statements below.
\<close>

definition normalized_of :: "byte list \<Rightarrow> options \<Rightarrow> real list" where
  "normalized_of frequencyData opts =
     normalizeFrequencyData
       (map (\<lambda>v. to_uint8 (Math_round v))
          (if logScaling opts then applyLogScaling frequencyData
           else map byte_val frequencyData)) 255"


section \<open>Facts about bytes and the loops on silent buffers\<close>

lemma byte_val_0 [simp]: "byte_val 0 = 0"
  by (simp add: byte_val_def)

lemma byte_val_nonneg [simp]: "0 \<le> byte_val b"
  unfolding byte_val_def by (rule of_nat_0_le_iff)

lemma byte_val_le_255: "byte_val b \<le> 255"
proof -
  have "unat b < 2 ^ LENGTH(8)" by (rule unsigned_less)
  then have "unat b \<le> 255" by simp
  then have "real (unat b) \<le> real 255" by (rule of_nat_mono)
  then show ?thesis unfolding byte_val_def by simp
qed

lemma rms_loop_zeros: "rms_loop (replicate n 0) acc = acc + real n"
  by (induction n arbitrary: acc) simp_all

lemma calculateRMS_zeros: "0 < n \<Longrightarrow> calculateRMS (replicate n 0) = 1"
  by (simp add: calculateRMS_def rms_loop_zeros)

lemma peak_loop_zeros: "peak_loop (replicate (Suc n) 0) peak = max peak 1"
  by (induction n arbitrary: peak) (simp_all add: max_def)

lemma calculatePeak_zeros: "0 < n \<Longrightarrow> calculatePeak (replicate n 0) = 1"
  by (cases n) (simp_all add: calculatePeak_def peak_loop_zeros del: replicate_Suc)

lemma centroid_loop_zeros:
  "centroid_loop (replicate n 0) i fftSize sampleRate w a = (w, a)"
  by (induction n arbitrary: i) simp_all

lemma calculateSpectralCentroid_zeros:
  "calculateSpectralCentroid (replicate n 0) sampleRate fftSize = 0"
  by (simp add: calculateSpectralCentroid_def centroid_loop_zeros)

lemma flatness_loop_uniform:
  "flatness_loop (replicate n x) g a =
     (g + real n * ln (max (byte_val x) (1 / 10000)), a + real n * max (byte_val x) (1 / 10000))"
  by (induction n arbitrary: g a) (simp_all add: algebra_simps Let_def)

lemma calculateSpectralFlatness_uniform:
  "0 < n \<Longrightarrow> calculateSpectralFlatness (replicate n x) = 1"
  by (simp add: calculateSpectralFlatness_def flatness_loop_uniform max_def)

lemma foldl_zeros: "foldl (\<lambda>acc val. acc + byte_val val) a (replicate n 0) = a"
  by (induction n arbitrary: a) simp_all

lemma calculateSpectralRolloff_zeros:
  "0 < n \<Longrightarrow> calculateSpectralRolloff (replicate n 0) sampleRate fftSize percentile = 0"
  by (cases n) (simp_all add: calculateSpectralRolloff_def foldl_zeros getFrequencyForIndex_def)

section \<open>The silent buffer of 1024 samples\<close>

text \<open>
  Claim C1, as the code has it. For the buffer of 1024 samples that are all 0, read with
  the default transform size 2048 and sample rate 44100: the spectral centroid is 0, as
  the claim says. The RMS and the peak are 1 and not 0, because the level functions
  take 128 as silence, so that a sample 0 is the full negative amplitude. The spectral
  flatness is 1 and not 0, because every sample is raised to the floor 0.0001 and the
  buffer is then uniform. The spectral rolloff is 0 Hz, the frequency of the first bin
  and not of bin 1023, because the running sum 0 has reached the target 0 at the first
  bin. The statistics snapshot holds the same values.
\<close>

theorem zero_buffer_values:
  "calculateRMS (replicate 1024 0) = 1
   \<and> calculatePeak (replicate 1024 0) = 1
   \<and> calculateSpectralCentroid (replicate 1024 0) SAMPLE_RATE FFT_SIZE = 0
   \<and> calculateSpectralFlatness (replicate 1024 0) = 1
   \<and> calculateSpectralRolloff (replicate 1024 0) SAMPLE_RATE FFT_SIZE (85 / 100) = 0
   \<and> getFrequencyForIndex 0 FFT_SIZE SAMPLE_RATE = 0
   \<and> level_rms (calculateAudioStats (replicate 1024 0) (Some (replicate 1024 0))) = 1
   \<and> level_peak (calculateAudioStats (replicate 1024 0) (Some (replicate 1024 0))) = 1
   \<and> spectral_centroid (calculateAudioStats (replicate 1024 0) (Some (replicate 1024 0))) = 0
   \<and> spectral_flatness (calculateAudioStats (replicate 1024 0) (Some (replicate 1024 0))) = 1
   \<and> spectral_rolloff (calculateAudioStats (replicate 1024 0) (Some (replicate 1024 0))) = 0"
proof -
  have n: "0 < (1024::nat)" by simp
  note vals = calculateRMS_zeros [OF n] calculatePeak_zeros [OF n]
    calculateSpectralCentroid_zeros [of 1024]
    calculateSpectralFlatness_uniform [OF n, of 0]
    calculateSpectralRolloff_zeros [OF n]
  have f0: "getFrequencyForIndex 0 FFT_SIZE SAMPLE_RATE = 0"
    by (simp add: getFrequencyForIndex_def)
  show ?thesis
    by (simp add: vals f0 calculateAudioStats_def split_def Let_def)
qed

text \<open>
  The values that claim C1 states (RMS 0, peak 0, centroid 0, flatness 0, rolloff at
  bin 1023) are not the values of the code: the RMS of the silent buffer is 1.
\<close>

theorem zero_buffer_counterexample:
  "\<not> (calculateRMS (replicate 1024 0) = 0
      \<and> calculatePeak (replicate 1024 0) = 0
      \<and> calculateSpectralCentroid (replicate 1024 0) SAMPLE_RATE FFT_SIZE = 0
      \<and> calculateSpectralFlatness (replicate 1024 0) = 0
      \<and> calculateSpectralRolloff (replicate 1024 0) SAMPLE_RATE FFT_SIZE (85 / 100)
          = getFrequencyForIndex 1023 FFT_SIZE SAMPLE_RATE)"
proof -
  have "calculateRMS (replicate 1024 0) = 1"
    by (rule calculateRMS_zeros) simp
  then show ?thesis by simp
qed

section \<open>Rounding to doubles\<close>

lemma round_half_even_error: "\<bar>of_int (round_half_even z) - z\<bar> \<le> 1 / 2"
proof -
  have "of_int \<lfloor>z\<rfloor> \<le> z" and "z < of_int \<lfloor>z\<rfloor> + 1" by linarith+
  then show ?thesis
    by (auto simp add: round_half_even_def Let_def)
qed

lemma round_half_even_of_int [simp]: "round_half_even (of_int k) = k"
  by (simp add: round_half_even_def)

lemma fl_0 [simp]: "fl 0 = 0"
  by (simp add: fl_def)

lemma floor_log2_eq:
  assumes "2 powr of_int e \<le> \<bar>x\<bar>" and "\<bar>x\<bar> < 2 powr (of_int e + 1)"
  shows "\<lfloor>log 2 \<bar>x\<bar>\<rfloor> = e"
proof -
  have pos: "0 < \<bar>x\<bar>"
    using assms(1) by (rule less_le_trans [rotated]) simp
  have "of_int e \<le> log 2 \<bar>x\<bar>"
    using assms(1) pos by (simp add: le_log_iff)
  moreover have "log 2 \<bar>x\<bar> < of_int e + 1"
    using assms(2) pos by (simp add: log_less_iff)
  ultimately show ?thesis by (rule floor_unique)
qed

lemma fl_bracket:
  assumes "2 powr of_int e \<le> \<bar>x\<bar>" and "\<bar>x\<bar> < 2 powr (of_int e + 1)" and "- 1022 \<le> e"
  shows "fl x = 2 powr (of_int e - 52) * of_int (round_half_even (x / 2 powr (of_int e - 52)))"
proof -
  have "0 < \<bar>x\<bar>"
    using assms(1) by (rule less_le_trans [rotated]) simp
  then have nz: "x \<noteq> 0" by simp
  have "max \<lfloor>log 2 \<bar>x\<bar>\<rfloor> (- 1022) = e"
    using floor_log2_eq [OF assms(1,2)] assms(3) by simp
  then show ?thesis
    using nz by (simp add: fl_def Let_def)
qed

text \<open>Below 512 the spacing of the doubles is at most \<open>2^-44\<close>.\<close>

lemma fl_error_small:
  assumes "\<bar>x\<bar> < 512"
  shows "\<bar>fl x - x\<bar> \<le> 1 / 2 ^ 45"
proof (cases "x = 0")
  case True
  then show ?thesis by simp
next
  case False
  define e where "e = max \<lfloor>log 2 \<bar>x\<bar>\<rfloor> (- 1022)"
  define q :: real where "q = 2 powr (of_int e - 52)"
  have q: "0 < q" by (simp add: q_def)
  have "log 2 \<bar>x\<bar> < log 2 512"
    using assms False by simp
  also have "log 2 512 = 9"
  proof -
    have "(512::real) = 2 powr 9" by simp
    then show ?thesis by (simp only: log_powr_cancel)
  qed
  finally have "\<lfloor>log 2 \<bar>x\<bar>\<rfloor> < 9" by (simp add: floor_less_iff)
  then have "e \<le> 8" by (simp add: e_def)
  then have "of_int e - 52 \<le> (- 44 :: real)" by simp
  then have "q \<le> 2 powr (- 44)"
    unfolding q_def by (simp only: powr_le_cancel_iff) 
  also have "2 powr (- 44) = (1 / 2 ^ 44 :: real)"
    by (simp add: powr_minus_divide)
  finally have q44: "q \<le> 1 / 2 ^ 44" .
  have f: "fl x = q * of_int (round_half_even (x / q))"
    using False by (simp add: fl_def Let_def e_def q_def)
  have "fl x - x = q * (of_int (round_half_even (x / q)) - x / q)"
    unfolding f using q by (simp add: algebra_simps)
  then have "\<bar>fl x - x\<bar> = q * \<bar>of_int (round_half_even (x / q)) - x / q\<bar>"
    using q by (simp add: abs_mult)
  also have "\<dots> \<le> q * (1 / 2)"
    using q round_half_even_error [of "x / q"] by (intro mult_left_mono) simp_all
  also have "\<dots> \<le> (1 / 2 ^ 44) * (1 / 2)"
    using q44 by (intro mult_right_mono) simp_all
  also have "\<dots> = 1 / 2 ^ 45" by simp
  finally show ?thesis .
qed


text \<open>A number with at most 53 significant bits is a double and is not changed.\<close>

lemma fl_exact:
  assumes "\<bar>m\<bar> < 2 ^ 53" and "- 1074 \<le> t"
  shows "fl (of_int m * 2 powr of_int t) = of_int m * 2 powr of_int t"
proof (cases "m = 0")
  case True
  then show ?thesis by simp
next
  case False
  let ?x = "of_int m * 2 powr of_int t :: real"
  define e where "e = max \<lfloor>log 2 \<bar>?x\<bar>\<rfloor> (- 1022)"
  define q :: real where "q = 2 powr (of_int e - 52)"
  have nz: "?x \<noteq> 0" using False by simp
  have ax: "\<bar>?x\<bar> = of_int \<bar>m\<bar> * 2 powr of_int t"
    by (simp add: abs_mult)
  have "of_int \<bar>m\<bar> < (2 ^ 53 :: real)"
    using assms(1) by (metis of_int_less_iff of_int_numeral of_int_power)
  then have "\<bar>?x\<bar> < 2 ^ 53 * 2 powr of_int t"
    unfolding ax by (intro mult_strict_right_mono) simp_all
  also have "\<dots> = 2 powr (53 + of_int t)"
    by (simp add: powr_add)
  finally have "log 2 \<bar>?x\<bar> < 53 + of_int t"
    using nz by (simp add: log_less_iff)
  then have "log 2 \<bar>?x\<bar> < of_int (53 + t)" by simp
  then have "\<lfloor>log 2 \<bar>?x\<bar>\<rfloor> < 53 + t" by (simp only: floor_less_iff)
  then have e: "e \<le> 52 + t" using assms(2) by (simp add: e_def)
  define d where "d = nat (t - e + 52)"
  have d: "int d = t - e + 52" using e by (simp add: d_def)
  have "2 powr of_int t / q = 2 powr (of_int t - (of_int e - 52))"
    unfolding q_def by (simp add: powr_diff)
  also have "of_int t - (of_int e - 52) = (of_int (int d) :: real)"
    unfolding d by simp
  also have "2 powr (of_int (int d)) = (2 ^ d :: real)"
    by (simp add: powr_realpow)
  finally have r: "2 powr of_int t / q = 2 ^ d" .
  have "?x / q = of_int m * (2 powr of_int t / q)" by simp
  also have "\<dots> = of_int (m * 2 ^ d)" unfolding r by simp
  finally have xq: "?x / q = of_int (m * 2 ^ d)" .
  have "fl ?x = q * of_int (round_half_even (?x / q))"
    using nz by (simp add: fl_def Let_def e_def q_def)
  also have "\<dots> = q * (?x / q)"
    unfolding xq by (simp only: round_half_even_of_int)
  also have "\<dots> = ?x" by (simp add: q_def)
  finally show ?thesis .
qed

lemma fl_of_nat: "k < 2 ^ 53 \<Longrightarrow> fl (real k) = real k"
  using fl_exact [of "int k" 0] by simp

lemma fl_1 [simp]: "fl 1 = 1"
  using fl_of_nat [of 1] by simp

lemma fl_byte_val [simp]: "fl (byte_val b) = byte_val b"
proof -
  have "unat b < 2 ^ LENGTH(8)" by (rule unsigned_less)
  then have "unat b < 2 ^ 53" by simp
  then show ?thesis unfolding byte_val_def by (rule fl_of_nat)
qed

lemma fl_half: "fl (1 / 2) = 1 / 2"
  using fl_exact [of 1 "- 1"] by (simp add: powr_minus_divide)

section \<open>Temporal smoothing: what the loop computes\<close>

lemma Math_round_of_nat: "Math_round (real n) = int n"
  unfolding Math_round_def by (rule floor_unique) simp_all

lemma Math_round_byte_val: "Math_round (byte_val b) = int (unat b)"
  unfolding byte_val_def by (rule Math_round_of_nat)

lemma Math_round_mono: "x \<le> y \<Longrightarrow> Math_round x \<le> Math_round y"
  unfolding Math_round_def by (intro floor_mono) simp

lemma unat_to_uint8: "0 \<le> n \<Longrightarrow> n \<le> 255 \<Longrightarrow> int (unat (to_uint8 n)) = n"
  unfolding to_uint8_def by (simp add: unsigned_of_int take_bit_eq_mod)

lemma to_uint8_unat: "to_uint8 (int (unat b)) = b"
  unfolding to_uint8_def by simp

lemma byte_val_le_iff: "byte_val a \<le> byte_val b \<longleftrightarrow> a \<le> b"
  unfolding byte_val_def word_le_nat_alt by (rule of_nat_le_iff)

lemma mix_lower:
  fixes c p \<alpha> :: real
  assumes "0 \<le> \<alpha>" "\<alpha> \<le> 1"
  shows "min c p \<le> p * \<alpha> + c * (1 - \<alpha>)"
proof -
  have "p * \<alpha> + c * (1 - \<alpha>) = c + (p - c) * \<alpha>" by (simp add: algebra_simps)
  moreover have "min c p \<le> c + (p - c) * \<alpha>"
  proof (cases "c \<le> p")
    case True
    then have "0 \<le> (p - c) * \<alpha>" using assms by simp
    then show ?thesis using True by simp
  next
    case False
    then have "(p - c) * 1 \<le> (p - c) * \<alpha>"
      using assms by (intro mult_left_mono_neg) simp_all
    then have "p - c \<le> (p - c) * \<alpha>" by simp
    then show ?thesis by (simp add: min_def)
  qed
  ultimately show ?thesis by simp
qed

lemma mix_upper:
  fixes c p \<alpha> :: real
  assumes "0 \<le> \<alpha>" "\<alpha> \<le> 1"
  shows "p * \<alpha> + c * (1 - \<alpha>) \<le> max c p"
proof -
  have "min (- c) (- p) \<le> (- p) * \<alpha> + (- c) * (1 - \<alpha>)"
    using assms by (rule mix_lower)
  then show ?thesis by (simp add: algebra_simps min_def max_def split: if_splits)
qed

lemma mix_mono:
  fixes c p a b :: real
  assumes "c \<le> p" "a \<le> b"
  shows "p * a + c * (1 - a) \<le> p * b + c * (1 - b)"
proof -
  have "(p - c) * a \<le> (p - c) * b"
    using assms by (intro mult_left_mono) simp_all
  then show ?thesis by (simp add: algebra_simps)
qed

lemma mix_antimono:
  fixes c p a b :: real
  assumes "p \<le> c" "a \<le> b"
  shows "p * b + c * (1 - b) \<le> p * a + c * (1 - a)"
proof -
  have "(c - p) * a \<le> (c - p) * b"
    using assms by (intro mult_left_mono) simp_all
  then show ?thesis by (simp add: algebra_simps)
qed


lemma smooth_loop_length: "length (smooth_loop cur prev \<alpha>) = length cur"
  by (induction cur prev \<alpha> rule: smooth_loop.induct) simp_all

lemma smooth_loop_nth:
  "i < length cur \<Longrightarrow>
   smooth_loop cur prev \<alpha> ! i =
     (if i < length prev then to_uint8 (Math_round (blend (prev ! i) (cur ! i) \<alpha>)) else 0)"
proof (induction cur prev \<alpha> arbitrary: i rule: smooth_loop.induct)
  case (1 previousData smoothingFactor)
  then show ?case by simp
next
  case (2 c cs smoothingFactor)
  then show ?case by (cases i) simp_all
next
  case (3 c cs p ps smoothingFactor)
  then show ?case by (cases i) simp_all
qed

lemma blend_0: "blend p c 0 = byte_val c"
  by (simp add: blend_def)

lemma blend_1: "blend p c 1 = byte_val p"
  by (simp add: blend_def)

text \<open>The rounded blend stays within \<open>2^-36\<close> of the exact one, for a factor in [0, 1].\<close>

lemma blend_error:
  assumes "0 \<le> \<alpha>" and "\<alpha> \<le> 1"
  shows "\<bar>blend p c \<alpha> - (byte_val p * \<alpha> + byte_val c * (1 - \<alpha>))\<bar> \<le> 1 / 2 ^ 36"
proof -
  let ?P = "byte_val p" and ?C = "byte_val c"
  define u :: real where "u = 1 / 2 ^ 45"
  have u: "0 \<le> u" "u \<le> 1 / 1000" "258 * u \<le> 1 / 2 ^ 36"
    by (simp_all add: u_def)
  note err = fl_error_small [folded u_def]
  define s where "s = fl (1 - \<alpha>)"
  define t1 where "t1 = fl (?P * \<alpha>)"
  define t2 where "t2 = fl (?C * s)"
  have P: "0 \<le> ?P" "?P \<le> 255" and C: "0 \<le> ?C" "?C \<le> 255"
    by (simp_all add: byte_val_le_255)
  have "\<bar>1 - \<alpha>\<bar> < 512" using assms by linarith
  then have es: "\<bar>s - (1 - \<alpha>)\<bar> \<le> u"
    unfolding s_def by (rule err)
  have "?P * \<alpha> \<le> 255 * 1"
    using P assms by (intro mult_mono) simp_all
  moreover have "0 \<le> ?P * \<alpha>" using P assms by simp
  ultimately have b1: "\<bar>?P * \<alpha>\<bar> \<le> 255" by linarith
  then have "\<bar>?P * \<alpha>\<bar> < 512" by linarith
  then have e1: "\<bar>t1 - ?P * \<alpha>\<bar> \<le> u"
    unfolding t1_def by (rule err)
  have s0: "- u \<le> s" and s1: "s \<le> 1 + u"
    using es assms by linarith+
  have "?C * s \<le> ?C * (1 + u)"
    using C s1 by (intro mult_left_mono) linarith+
  also have "\<dots> \<le> 255 * (1 + u)"
    using C u by (intro mult_right_mono) linarith+
  also have "\<dots> \<le> 256" using u(1,2) by simp
  finally have hi: "?C * s \<le> 256" .
  have "- 1 \<le> 255 * (- u)" using u(1,2) by simp
  also have "\<dots> \<le> ?C * (- u)"
    using C u by (intro mult_right_mono_neg) linarith+
  also have "\<dots> \<le> ?C * s"
    using C s0 by (intro mult_left_mono) linarith+
  finally have lo: "- 1 \<le> ?C * s" .
  from hi lo have b2: "\<bar>?C * s\<bar> \<le> 256" by linarith
  then have "\<bar>?C * s\<bar> < 512" by linarith
  then have e2: "\<bar>t2 - ?C * s\<bar> \<le> u"
    unfolding t2_def by (rule err)
  have "?C * s - ?C * (1 - \<alpha>) = ?C * (s - (1 - \<alpha>))"
    by (simp only: right_diff_distrib)
  then have "\<bar>?C * s - ?C * (1 - \<alpha>)\<bar> = ?C * \<bar>s - (1 - \<alpha>)\<bar>"
    using C by (simp only: abs_mult abs_of_nonneg)
  also have "\<dots> \<le> 255 * u"
    using C es u by (intro mult_mono) linarith+
  finally have e3: "\<bar>?C * s - ?C * (1 - \<alpha>)\<bar> \<le> 255 * u" .
  have "\<bar>t1 + t2\<bar> < 512"
    using e1 e2 b1 b2 u(1,2) by linarith
  then have e4: "\<bar>fl (t1 + t2) - (t1 + t2)\<bar> \<le> u"
    by (rule err)
  have "blend p c \<alpha> = fl (t1 + t2)"
    by (simp only: blend_def t1_def t2_def s_def)
  moreover have "\<bar>fl (t1 + t2) - (?P * \<alpha> + ?C * (1 - \<alpha>))\<bar> \<le> 258 * u"
    using e1 e2 e3 e4 by linarith
  ultimately show ?thesis using u(3) by linarith
qed


lemma fl_bracket_pos:
  assumes "2 powr of_int e \<le> x" and "x < 2 * 2 powr of_int e" and "- 1022 \<le> e"
  shows "fl x = of_int (round_half_even (x * 2 powr (52 - of_int e))) / 2 powr (52 - of_int e)"
proof -
  have "0 < 2 powr (of_int e :: real)" by simp
  with assms(1) have pos: "0 < x" by linarith
  have a: "2 powr of_int e \<le> \<bar>x\<bar>" using assms(1) pos by simp
  have "2 * 2 powr of_int e = (2 powr (of_int e + 1) :: real)"
    by (simp add: powr_add)
  with assms(2) pos have b: "\<bar>x\<bar> < 2 powr (of_int e + 1)" by simp
  have q: "2 powr (of_int e - 52) = 1 / (2 powr (52 - of_int e) :: real)"
    by (simp add: powr_diff)
  show ?thesis
    unfolding fl_bracket [OF a b assms(3)] q by simp
qed

lemma fl_numeral: "numeral n < (2 ^ 53 :: nat) \<Longrightarrow> fl (numeral n) = numeral n"
  using fl_of_nat [of "numeral n"] by simp

lemma Math_round_error: "\<bar>of_int (Math_round y) - y\<bar> \<le> 1 / 2"
  unfolding Math_round_def by linarith

text \<open>The rounded blend of two bytes with a factor in [0, 1], rounded and stored.\<close>

lemma unat_blend:
  assumes "0 \<le> \<alpha>" "\<alpha> \<le> 1"
  shows "int (unat (to_uint8 (Math_round (blend p c \<alpha>)))) = Math_round (blend p c \<alpha>)"
    and "int (unat (min c p)) \<le> Math_round (blend p c \<alpha>)"
    and "Math_round (blend p c \<alpha>) \<le> int (unat (max c p))"
proof -
  let ?x = "byte_val p * \<alpha> + byte_val c * (1 - \<alpha>)"
  let ?y = "blend p c \<alpha>"
  have mn: "byte_val (min c p) = min (byte_val c) (byte_val p)"
    by (simp add: min_def byte_val_le_iff)
  have mx: "byte_val (max c p) = max (byte_val c) (byte_val p)"
    by (simp add: max_def byte_val_le_iff)
  have lo: "byte_val (min c p) \<le> ?x"
    unfolding mn using assms by (rule mix_lower)
  have hi: "?x \<le> byte_val (max c p)"
    unfolding mx using assms by (rule mix_upper)
  have d: "(1 / 2 ^ 36 :: real) \<le> 1 / 4" by simp
  note e = blend_error [OF assms, of p c]
  have "real (unat (min c p)) \<le> ?y + 1 / 2"
    using lo e d unfolding byte_val_def by linarith
  then have "of_int (int (unat (min c p))) \<le> ?y + 1 / 2" by simp
  then show l: "int (unat (min c p)) \<le> Math_round ?y"
    unfolding Math_round_def by (simp only: le_floor_iff)
  have "?y + 1 / 2 < real (unat (max c p)) + 1"
    using hi e d unfolding byte_val_def by linarith
  then have "?y + 1 / 2 < of_int (int (unat (max c p))) + 1" by simp
  then show h: "Math_round ?y \<le> int (unat (max c p))"
    unfolding Math_round_def by (simp only: floor_le_iff)
  have "0 \<le> int (unat (min c p))" by simp
  with l have ge: "0 \<le> Math_round ?y" by linarith
  have "uint (max c p) < 2 ^ LENGTH(8)" by (rule unsigned_less)
  then have "int (unat (max c p)) \<le> 255" by simp
  with h have le: "Math_round ?y \<le> 255" by linarith
  show "int (unat (to_uint8 (Math_round ?y))) = Math_round ?y"
    using ge le by (rule unat_to_uint8)
qed

lemma Math_round_nearly_mono: "x \<le> y + 1 \<Longrightarrow> Math_round x \<le> Math_round y + 1"
proof -
  assume "x \<le> y + 1"
  then have "x + 1 / 2 \<le> (y + 1 / 2) + 1" by simp
  then have "\<lfloor>x + 1 / 2\<rfloor> \<le> \<lfloor>(y + 1 / 2) + 1\<rfloor>" by (rule floor_mono)
  also have "\<dots> = \<lfloor>y + 1 / 2\<rfloor> + 1" by linarith
  finally show ?thesis unfolding Math_round_def .
qed

lemma blend_nearly_mono:
  assumes "byte_val c \<le> byte_val p" and "0 \<le> a" and "a \<le> b" and "b \<le> 1"
  shows "Math_round (blend p c a) \<le> Math_round (blend p c b) + 1"
proof -
  have a01: "0 \<le> a" "a \<le> 1" and b01: "0 \<le> b" "b \<le> 1" using assms by simp_all
  have d: "(1 / 2 ^ 36 :: real) \<le> 1 / 4" by simp
  have "byte_val p * a + byte_val c * (1 - a) \<le> byte_val p * b + byte_val c * (1 - b)"
    using assms(1,3) by (rule mix_mono)
  with blend_error [OF a01, of p c] blend_error [OF b01, of p c] d
  have "blend p c a \<le> blend p c b + 1" by linarith
  then show ?thesis by (rule Math_round_nearly_mono)
qed

lemma blend_nearly_antimono:
  assumes "byte_val p \<le> byte_val c" and "0 \<le> a" and "a \<le> b" and "b \<le> 1"
  shows "Math_round (blend p c b) \<le> Math_round (blend p c a) + 1"
proof -
  have a01: "0 \<le> a" "a \<le> 1" and b01: "0 \<le> b" "b \<le> 1" using assms by simp_all
  have d: "(1 / 2 ^ 36 :: real) \<le> 1 / 4" by simp
  have "byte_val p * b + byte_val c * (1 - b) \<le> byte_val p * a + byte_val c * (1 - a)"
    using assms(1,3) by (rule mix_antimono)
  with blend_error [OF a01, of p c] blend_error [OF b01, of p c] d
  have "blend p c b \<le> blend p c a + 1" by linarith
  then show ?thesis by (rule Math_round_nearly_mono)
qed

text \<open>
  Claim C2, as the code has it. \<open>smoothFrequencyData\<close> has no rejection: with a previous
  buffer of any length it returns a buffer of the length of the current one. At an index
  inside both buffers the sample is the rounded blend, computed in doubles as the code
  writes it; at an index past the end of the previous buffer the sample is 0; the samples
  of the previous buffer past the end of the current one are dropped.
\<close>

theorem smoothing_never_rejects:
  "length (smoothFrequencyData current (Some previous) \<alpha>) = length current
   \<and> (\<forall>i < length current.
         smoothFrequencyData current (Some previous) \<alpha> ! i =
           (if i < length previous
            then to_uint8 (Math_round (fl (fl (byte_val (previous ! i) * \<alpha>)
                                            + fl (byte_val (current ! i) * fl (1 - \<alpha>)))))
            else 0))"
  by (simp add: smoothFrequencyData_def smooth_loop_length smooth_loop_nth blend_def)

text \<open>The statement above at a previous buffer that is shorter than the current one.\<close>

theorem smoothing_never_rejects_witness:
  "length (smoothFrequencyData [10, 20] (Some [30]) (1 / 2)) = 2
   \<and> smoothFrequencyData [10, 20] (Some [30]) (1 / 2) ! 0 = 20
   \<and> smoothFrequencyData [10, 20] (Some [30]) (1 / 2) ! 1 = 0"
  using smoothing_never_rejects [of "[10, 20]" "[30]" "1 / 2"]
  by (simp add: to_uint8_def Math_round_def byte_val_def fl_half fl_numeral)

text \<open>
  Claim C2 as stated asks for a rejection when the lengths differ. The code returns a
  smoothed buffer for a shorter previous buffer (its missing sample read as 0 in the
  output) and for a longer one (its last sample dropped).
\<close>

theorem smoothing_mismatch_counterexample:
  "length [30 :: byte] \<noteq> length [10, 20 :: byte]
   \<and> smoothFrequencyData [10, 20] (Some [30]) (1 / 2) = [20, 0]
   \<and> length [30, 40 :: byte] \<noteq> length [10 :: byte]
   \<and> smoothFrequencyData [10] (Some [30, 40]) (1 / 2) = [20]"
  by (simp add: smoothFrequencyData_def blend_def to_uint8_def Math_round_def byte_val_def
      fl_half fl_numeral)


text \<open>
  Claim C7, as the code has it. For two buffers of equal length, an index \<open>i\<close> and
  factors \<open>0 \<le> a \<le> b \<le> 1\<close>, with the blend computed in doubles: the smoothed
  sample is the current sample at factor 0 and the previous sample at factor 1; it is the
  rounded blend, stored without wrap-around; it lies between the two samples; and it is
  within \<open>1/2 + 2^-36\<close> of the exact blend. In the factor it is monotone up to one
  unit only: from \<open>a\<close> to \<open>b\<close> it falls by at most 1 when the previous sample is the
  larger one, and rises by at most 1 when the current sample is the larger one.
\<close>

theorem smoothing_between_samples:
  assumes "length previous = length current" and "i < length current"
    and "0 \<le> a" and "a \<le> b" and "b \<le> 1"
  shows "smoothFrequencyData current (Some previous) 0 ! i = current ! i
   \<and> smoothFrequencyData current (Some previous) 1 ! i = previous ! i
   \<and> int (unat (smoothFrequencyData current (Some previous) a ! i)) =
       Math_round (fl (fl (byte_val (previous ! i) * a)
                       + fl (byte_val (current ! i) * fl (1 - a))))
   \<and> min (current ! i) (previous ! i) \<le> smoothFrequencyData current (Some previous) a ! i
   \<and> smoothFrequencyData current (Some previous) a ! i \<le> max (current ! i) (previous ! i)
   \<and> \<bar>real (unat (smoothFrequencyData current (Some previous) a ! i))
        - (byte_val (previous ! i) * a + byte_val (current ! i) * (1 - a))\<bar>
       \<le> 1 / 2 + 1 / 2 ^ 36
   \<and> (current ! i \<le> previous ! i \<longrightarrow>
        unat (smoothFrequencyData current (Some previous) a ! i)
          \<le> unat (smoothFrequencyData current (Some previous) b ! i) + 1)
   \<and> (previous ! i \<le> current ! i \<longrightarrow>
        unat (smoothFrequencyData current (Some previous) b ! i)
          \<le> unat (smoothFrequencyData current (Some previous) a ! i) + 1)"
proof -
  let ?c = "current ! i" and ?p = "previous ! i"
  let ?y = "\<lambda>t. blend ?p ?c t"
  have nth: "smoothFrequencyData current (Some previous) t ! i = to_uint8 (Math_round (?y t))"
    for t
    using assms(1,2) by (simp add: smoothFrequencyData_def smooth_loop_nth)
  have a01: "0 \<le> a" "a \<le> 1" and b01: "0 \<le> b" "b \<le> 1"
    using assms by simp_all
  note ua = unat_blend [OF a01, where p = ?p and c = ?c]
    and ub = unat_blend [OF b01, where p = ?p and c = ?c]
  have zero: "to_uint8 (Math_round (?y 0)) = ?c"
    by (simp only: blend_0 Math_round_byte_val to_uint8_unat)
  have one: "to_uint8 (Math_round (?y 1)) = ?p"
    by (simp only: blend_1 Math_round_byte_val to_uint8_unat)
  have code: "int (unat (to_uint8 (Math_round (?y a)))) =
      Math_round (fl (fl (byte_val ?p * a) + fl (byte_val ?c * fl (1 - a))))"
    using ua(1) by (simp only: blend_def)
  have lo: "min ?c ?p \<le> to_uint8 (Math_round (?y a))"
  proof -
    have "int (unat (min ?c ?p)) \<le> int (unat (to_uint8 (Math_round (?y a))))"
      using ua(2) by (simp only: ua(1))
    then show ?thesis by (simp only: word_le_nat_alt of_nat_le_iff)
  qed
  have hi: "to_uint8 (Math_round (?y a)) \<le> max ?c ?p"
  proof -
    have "int (unat (to_uint8 (Math_round (?y a)))) \<le> int (unat (max ?c ?p))"
      using ua(3) by (simp only: ua(1))
    then show ?thesis by (simp only: word_le_nat_alt of_nat_le_iff)
  qed
  have near: "\<bar>real (unat (to_uint8 (Math_round (?y a))))
        - (byte_val ?p * a + byte_val ?c * (1 - a))\<bar> \<le> 1 / 2 + 1 / 2 ^ 36"
  proof -
    have "real (unat (to_uint8 (Math_round (?y a)))) =
        of_int (int (unat (to_uint8 (Math_round (?y a)))))"
      by simp
    also have "\<dots> = of_int (Math_round (?y a))" by (simp only: ua(1))
    finally have r: "real (unat (to_uint8 (Math_round (?y a)))) = of_int (Math_round (?y a))" .
    show ?thesis
      unfolding r
      using Math_round_error [of "?y a"] blend_error [OF a01, of ?p ?c] by linarith
  qed
  have up: "unat (to_uint8 (Math_round (?y a))) \<le> unat (to_uint8 (Math_round (?y b))) + 1"
    if "?c \<le> ?p"
  proof -
    from that have "byte_val ?c \<le> byte_val ?p" by (simp only: byte_val_le_iff)
    then have "Math_round (?y a) \<le> Math_round (?y b) + 1"
      using assms(3,4,5) by (rule blend_nearly_mono)
    then have "int (unat (to_uint8 (Math_round (?y a))))
                 \<le> int (unat (to_uint8 (Math_round (?y b)))) + 1"
      by (simp only: ua(1) ub(1))
    then show ?thesis by linarith
  qed
  have down: "unat (to_uint8 (Math_round (?y b))) \<le> unat (to_uint8 (Math_round (?y a))) + 1"
    if "?p \<le> ?c"
  proof -
    from that have "byte_val ?p \<le> byte_val ?c" by (simp only: byte_val_le_iff)
    then have "Math_round (?y b) \<le> Math_round (?y a) + 1"
      using assms(3,4,5) by (rule blend_nearly_antimono)
    then have "int (unat (to_uint8 (Math_round (?y b))))
                 \<le> int (unat (to_uint8 (Math_round (?y a)))) + 1"
      by (simp only: ua(1) ub(1))
    then show ?thesis by linarith
  qed
  show ?thesis
    unfolding nth using zero one code lo hi near up down by blast
qed

text \<open>The statement above at the samples 10 and 30 with the factors 1/4 and 3/4.\<close>

theorem smoothing_between_samples_witness:
  "smoothFrequencyData [10, 200] (Some [30, 100]) 0 ! 0 = 10
   \<and> smoothFrequencyData [10, 200] (Some [30, 100]) 1 ! 0 = 30
   \<and> 10 \<le> smoothFrequencyData [10, 200] (Some [30, 100]) (1 / 4) ! 0
   \<and> smoothFrequencyData [10, 200] (Some [30, 100]) (1 / 4) ! 0 \<le> 30
   \<and> unat (smoothFrequencyData [10, 200] (Some [30, 100]) (1 / 4) ! 0)
       \<le> unat (smoothFrequencyData [10, 200] (Some [30, 100]) (3 / 4) ! 0) + 1"
  using smoothing_between_samples [of "[30, 100]" "[10, 200]" 0 "1 / 4" "3 / 4"]
  by simp

text \<open>The rounding at a given binary exponent, in a form that evaluates on numerals.\<close>

lemma fl_below_one:
  assumes "1 / 2 ^ k \<le> x" and "x < 2 / 2 ^ k" and "k \<le> 1022"
  shows "fl x = of_int (round_half_even (x * 2 ^ (52 + k))) / 2 ^ (52 + k)"
proof -
  have p: "2 powr of_int (- int k) = (1 / 2 ^ k :: real)"
    by (simp add: powr_minus_divide powr_realpow)
  have q: "2 powr (52 - of_int (- int k)) = (2 ^ (52 + k) :: real)"
  proof -
    have "52 - of_int (- int k) = real (52 + k)" by simp
    then show ?thesis by (simp only: powr_realpow zero_less_numeral)
  qed
  have a: "2 powr of_int (- int k) \<le> x"
    unfolding p by (rule assms(1))
  have b: "x < 2 * 2 powr of_int (- int k)"
    unfolding p using assms(2) by simp
  have c: "- 1022 \<le> - int k" using assms(3) by simp
  from fl_bracket_pos [OF a b c] show ?thesis by (simp only: q)
qed

lemma fl_above_one:
  assumes "2 ^ k \<le> x" and "x < 2 * 2 ^ k" and "k \<le> 52"
  shows "fl x = of_int (round_half_even (x * 2 ^ (52 - k))) / 2 ^ (52 - k)"
proof -
  have p: "2 powr of_int (int k) = (2 ^ k :: real)"
    by (simp add: powr_realpow)
  have q: "2 powr (52 - of_int (int k)) = (2 ^ (52 - k) :: real)"
  proof -
    have "52 - of_int (int k) = real (52 - k)" using assms(3) by simp
    then show ?thesis by (simp only: powr_realpow zero_less_numeral)
  qed
  have a: "2 powr of_int (int k) \<le> x"
    unfolding p by (rule assms(1))
  have b: "x < 2 * 2 powr of_int (int k)"
    unfolding p by (rule assms(2))
  have c: "- 1022 \<le> int k" by simp
  from fl_bracket_pos [OF a b c] show ?thesis by (simp only: q)
qed

text \<open>
  The previous sample 1 and the current sample 4 at two neighbouring factors near 1/6,
  the doubles \<^verbatim>\<open>0.1666666666666667\<close> and \<^verbatim>\<open>0.16666666666666674\<close>. The exact blend
  is just below 3.5 at both. At the smaller factor the sum rounds to the double below
  3.5; at the larger one the sum lies half way between two doubles and the tie goes to
  3.5, which \<^verbatim>\<open>Math.round\<close> takes to 4.
\<close>

lemma blend_below_half: "Math_round (blend 1 4 (6004799503160663 / 36028797018963968)) = 3"
proof -
  have s: "fl (1 - 6004799503160663 / 36028797018963968) = 3752999689475413 / 4503599627370496"
    using fl_below_one [of 1 "30023997515803305 / 36028797018963968"]
    by (simp add: round_half_even_def byte_val_def)
  have t1: "fl (byte_val 1 * (6004799503160663 / 36028797018963968)) = 6004799503160663 / 36028797018963968"
    using fl_below_one [of 3 "6004799503160663 / 36028797018963968"]
    by (simp add: round_half_even_def byte_val_def)
  have t2: "fl (byte_val 4 * (3752999689475413 / 4503599627370496)) = 3752999689475413 / 1125899906842624"
    using fl_above_one [of 1 "3752999689475413 / 1125899906842624"]
    by (simp add: round_half_even_def byte_val_def)
  have y: "fl (6004799503160663 / 36028797018963968 + 3752999689475413 / 1125899906842624) = 7881299347898367 / 2251799813685248"
    using fl_above_one [of 1 "126100789566373879 / 36028797018963968"]
    by (simp add: round_half_even_def byte_val_def)
  have b: "blend 1 4 (6004799503160663 / 36028797018963968) = 7881299347898367 / 2251799813685248"
    unfolding blend_def s t1 t2 y ..
  show ?thesis
    unfolding b by (simp add: Math_round_def)
qed

lemma blend_at_half: "Math_round (blend 1 4 (750599937895083 / 4503599627370496)) = 4"
proof -
  have s: "fl (1 - 750599937895083 / 4503599627370496) = 3752999689475413 / 4503599627370496"
    using fl_below_one [of 1 "3752999689475413 / 4503599627370496"]
    by (simp add: round_half_even_def byte_val_def)
  have t1: "fl (byte_val 1 * (750599937895083 / 4503599627370496)) = 750599937895083 / 4503599627370496"
    using fl_below_one [of 3 "750599937895083 / 4503599627370496"]
    by (simp add: round_half_even_def byte_val_def)
  have t2: "fl (byte_val 4 * (3752999689475413 / 4503599627370496)) = 3752999689475413 / 1125899906842624"
    using fl_above_one [of 1 "3752999689475413 / 1125899906842624"]
    by (simp add: round_half_even_def byte_val_def)
  have y: "fl (750599937895083 / 4503599627370496 + 3752999689475413 / 1125899906842624) = 7 / 2"
    using fl_above_one [of 1 "15762598695796735 / 4503599627370496"]
    by (simp add: round_half_even_def byte_val_def)
  have b: "blend 1 4 (750599937895083 / 4503599627370496) = 7 / 2"
    unfolding blend_def s t1 t2 y ..
  show ?thesis
    unfolding b by (simp add: Math_round_def)
qed

text \<open>
  Claim C7 as stated makes the smoothed sample a monotone function of the factor. With
  the previous sample 1 below the current sample 4 the sample must not rise with the
  factor, but it is 3 at the smaller factor and 4 at the larger one.
\<close>

theorem smoothing_not_monotone_counterexample:
  "(1 :: byte) \<le> 4
   \<and> (0 :: real) \<le> 6004799503160663 / 36028797018963968
   \<and> (6004799503160663 / 36028797018963968 :: real) < 750599937895083 / 4503599627370496
   \<and> (750599937895083 / 4503599627370496 :: real) \<le> 1
   \<and> smoothFrequencyData [4] (Some [1]) (6004799503160663 / 36028797018963968) = [3]
   \<and> smoothFrequencyData [4] (Some [1]) (750599937895083 / 4503599627370496) = [4]"
  by (simp add: smoothFrequencyData_def blend_below_half blend_at_half to_uint8_def)

text \<open>The factor of the recording session, and the blend of 0 and 100 at it.\<close>

lemma fl_six_tenths: "fl (3 / 5) = 5404319552844595 / 9007199254740992"
  using fl_below_one [of 1 "3 / 5"]
  by (simp add: round_half_even_def)

lemma blend_silence: "blend 0 0 \<alpha> = 0"
  by (simp add: blend_def)

lemma blend_six_tenths: "Math_round (blend 0 100 (5404319552844595 / 9007199254740992)) = 40"
proof -
  have s: "fl (1 - 5404319552844595 / 9007199254740992) = 3602879701896397 / 9007199254740992"
    using fl_below_one [of 2 "3602879701896397 / 9007199254740992"]
    by (simp add: round_half_even_def byte_val_def)
  have t1: "fl (byte_val 0 * (5404319552844595 / 9007199254740992)) = 0"
    by (simp add: byte_val_def)
  have t2: "fl (byte_val 100 * (3602879701896397 / 9007199254740992)) = 40"
    using fl_above_one [of 5 "90071992547409925 / 2251799813685248"]
    by (simp add: round_half_even_def byte_val_def)
  have y: "fl (0 + 40) = 40"
    using fl_above_one [of 5 "40"]
    by (simp add: round_half_even_def byte_val_def)
  have b: "blend 0 100 (5404319552844595 / 9007199254740992) = 40"
    unfolding blend_def s t1 t2 y ..
  show ?thesis
    unfolding b by (simp add: Math_round_def)
qed

section \<open>Spectral rolloff and the percentile\<close>

lemma foldl_total_nonneg:
  "0 \<le> a \<Longrightarrow> 0 \<le> foldl (\<lambda>acc val. acc + byte_val val) a xs"
  by (induction xs arbitrary: a) simp_all

lemma rolloff_loop_bounds:
  "rolloff_loop xs i c t = Some j \<Longrightarrow> i \<le> j \<and> j < i + length xs"
proof (induction xs arbitrary: i c)
  case Nil
  then show ?case by simp
next
  case (Cons x xs)
  show ?case
  proof (cases "c + byte_val x \<ge> t")
    case True
    with Cons.prems show ?thesis by simp
  next
    case False
    with Cons.prems have "rolloff_loop xs (Suc i) (c + byte_val x) t = Some j"
      by simp
    from Cons.IH [OF this] show ?thesis by simp
  qed
qed

lemma rolloff_loop_mono:
  "t1 \<le> t2 \<Longrightarrow> rolloff_loop xs i c t2 = Some j2 \<Longrightarrow>
   \<exists>j1. rolloff_loop xs i c t1 = Some j1 \<and> j1 \<le> j2"
proof (induction xs arbitrary: i c)
  case Nil
  then show ?case by simp
next
  case (Cons x xs)
  show ?case
  proof (cases "c + byte_val x \<ge> t1")
    case True
    have "i \<le> j2" using rolloff_loop_bounds [OF Cons.prems(2)] by simp
    with True show ?thesis by simp
  next
    case False
    with Cons.prems(1) have n2: "\<not> c + byte_val x \<ge> t2" by simp
    with Cons.prems(2) have "rolloff_loop xs (Suc i) (c + byte_val x) t2 = Some j2"
      by simp
    from Cons.IH [OF Cons.prems(1) this] False show ?thesis by simp
  qed
qed

lemma getFrequencyForIndex_mono:
  "0 < fftSize \<Longrightarrow> 0 < sampleRate \<Longrightarrow> x \<le> y \<Longrightarrow>
   getFrequencyForIndex x fftSize sampleRate \<le> getFrequencyForIndex y fftSize sampleRate"
  by (simp add: getFrequencyForIndex_def divide_right_mono mult_right_mono)

text \<open>
  Claim C8. For a fixed buffer, a positive sample rate and transform size, and
  percentiles \<open>p1 \<le> p2\<close>, the rolloff at \<open>p1\<close> is at most the rolloff at \<open>p2\<close>.
  The percentiles need not lie in [0, 1] for this.
\<close>

theorem rolloff_monotone_in_percentile:
  assumes "0 < sampleRate" and "0 < fftSize" and "p1 \<le> p2"
  shows "calculateSpectralRolloff frequencyData sampleRate fftSize p1
         \<le> calculateSpectralRolloff frequencyData sampleRate fftSize p2"
proof -
  let ?total = "foldl (\<lambda>acc val. acc + byte_val val) 0 frequencyData"
  have "0 \<le> ?total" by (rule foldl_total_nonneg) simp
  then have t: "?total * p1 \<le> ?total * p2"
    using assms(3) by (rule mult_left_mono [rotated])
  note fm = getFrequencyForIndex_mono [OF assms(2) assms(1)]
  show ?thesis
  proof (cases "rolloff_loop frequencyData 0 0 (?total * p2)")
    case None
    show ?thesis
    proof (cases "rolloff_loop frequencyData 0 0 (?total * p1)")
      case n1: None
      with None show ?thesis by (simp add: calculateSpectralRolloff_def)
    next
      case (Some j1)
      from rolloff_loop_bounds [OF Some] have "j1 < length frequencyData" by simp
      then have "real j1 \<le> real (length frequencyData) - 1" by linarith
      from fm [OF this] None Some show ?thesis
        by (simp add: calculateSpectralRolloff_def)
    qed
  next
    case (Some j2)
    from rolloff_loop_mono [OF t Some] obtain j1
      where j1: "rolloff_loop frequencyData 0 0 (?total * p1) = Some j1" and "j1 \<le> j2"
      by blast
    then have "real j1 \<le> real j2" by simp
    from fm [OF this] Some j1 show ?thesis
      by (simp add: calculateSpectralRolloff_def)
  qed
qed

text \<open>
  The statement above at the buffer 10, 20, 30: a quarter of the energy is reached at
  bin 1, 85 percent at bin 2.
\<close>

theorem rolloff_monotone_witness:
  "calculateSpectralRolloff [10, 20, 30] 44100 2048 (1 / 4) = 44100 / 2048
   \<and> calculateSpectralRolloff [10, 20, 30] 44100 2048 (85 / 100) = 2 * 44100 / 2048
   \<and> calculateSpectralRolloff [10, 20, 30] 44100 2048 (1 / 4)
       \<le> calculateSpectralRolloff [10, 20, 30] 44100 2048 (85 / 100)"
  using rolloff_monotone_in_percentile [of 44100 2048 "1 / 4" "85 / 100" "[10, 20, 30]"]
  by (simp add: calculateSpectralRolloff_def getFrequencyForIndex_def byte_val_def)

section \<open>Frequency to colour\<close>

text \<open>
  Claim C9, as the code has it. In the mode \<^verbatim>\<open>hsl\<close> the colour has the hue
  \<open>(frequency / 20000) \<cdot> 360\<close>, the saturation \<open>70 + 30 \<cdot> intensity\<close> and the lightness
  \<open>40 + 40 \<cdot> intensity\<close>, for every frequency and intensity. The hue is not reduced
  or clamped: it lies in [0, 360) exactly when the frequency lies in [0, 20000).
\<close>

theorem frequency_color_hsl:
  "getFrequencyColor freq intensity ''hsl'' =
     Hsl ((freq / 20000) * 360) (70 + 30 * intensity) (40 + 40 * intensity)
   \<and> ((0 \<le> (freq / 20000) * 360 \<and> (freq / 20000) * 360 < 360)
        = (0 \<le> freq \<and> freq < 20000))"
  by (auto simp add: getFrequencyColor_def)

text \<open>
  Claim C9 as stated puts the hue in [0, 360) for every frequency. At 20000 Hz, the upper
  limit of the highest band, the hue is 360; at a negative frequency it is negative.
\<close>

theorem frequency_color_hue_counterexample:
  "getFrequencyColor 20000 (1 / 2) ''hsl'' = Hsl 360 85 60
   \<and> \<not> ((360::real) < 360)
   \<and> getFrequencyColor (- 1000) (1 / 2) ''hsl'' = Hsl (- 18) 85 60
   \<and> \<not> ((0::real) \<le> - 18)"
  by (simp add: getFrequencyColor_def)

section \<open>Stopping and starting a session\<close>









lemma running_example_previous: "previousDataRef running_example = Some 2"
  by (simp add: running_example_def tick_def analyzeAudio_def startRecording_def
      initial_session_def Let_def split_def)

text \<open>
  In the running example the next frame would be blended with the stored previous frame:
  100 against 0 with the factor 0.6 gives 40.
\<close>

lemma running_example_continues:
  "st_frequencyData (tick running_example ([100, 100], [128, 128])) = Some [40, 40]"
proof -
  have z: "Math_round 0 = 0" by (simp add: Math_round_def)
  show ?thesis
    by (simp add: running_example_def tick_def analyzeAudio_def startRecording_def
        initial_session_def Let_def split_def fill_def smoothFrequencyData_def
        fl_six_tenths blend_six_tenths blend_silence z to_uint8_def)
qed


section \<open>The bar dataset\<close>

lemma bars_loop_map:
  "bars_loop nd numBars step opts i = map (make_bar nd numBars step opts) [i..<numBars]"
proof (induction nd numBars step opts i rule: bars_loop.induct)
  case (1 nd numBars step opts i)
  show ?case
  proof (cases "i < numBars")
    case True
    with "1.IH" show ?thesis
      by (subst bars_loop.simps) (simp add: upt_conv_Cons)
  next
    case False
    then show ?thesis
      by (subst bars_loop.simps) simp
  qed
qed

lemma length_applyLogScaling [simp]: "length (applyLogScaling fd) = length fd"
  by (simp add: applyLogScaling_def)

lemma length_normalizeFrequencyData [simp]: "length (normalizeFrequencyData xs m) = length xs"
  by (simp add: normalizeFrequencyData_def)

lemma length_normalized_of [simp]: "length (normalized_of fd opts) = length fd"
  by (simp add: normalized_of_def)

lemma createCircularVisualizationData_map:
  "createCircularVisualizationData fd numBars opts =
     map (make_bar (normalized_of fd opts) numBars (length fd div numBars) opts) [0..<numBars]"
  by (simp add: createCircularVisualizationData_def Let_def bars_loop_map normalized_of_def)

lemma length_createCircularVisualizationData:
  "length (createCircularVisualizationData fd numBars opts) = numBars"
  by (simp add: createCircularVisualizationData_map)

lemma nth_createCircularVisualizationData:
  "i < numBars \<Longrightarrow>
   createCircularVisualizationData fd numBars opts ! i =
     make_bar (normalized_of fd opts) numBars (length fd div numBars) opts i"
  by (simp add: createCircularVisualizationData_map)

lemma make_bar_fields:
  "index (make_bar nd numBars step opts i) = i"
  "angle (make_bar nd numBars step opts i) = (real i / real numBars) * pi * 2"
  "\<exists>avg. rawValue (make_bar nd numBars step opts i) = avg
     \<and> height (make_bar nd numBars step opts i) =
         Math_pow_1_5 (min (max avg (minBarHeight opts)) (maxBarHeight opts))"
  by (simp_all add: make_bar_def Let_def split_def)

lemma Math_pow_1_5_clamped:
  assumes "0 \<le> lo" and "lo \<le> hi"
  shows "\<exists>h. Math_pow_1_5 (min (max avg lo) hi) = Num h
           \<and> lo powr (3 / 2) \<le> h \<and> h \<le> hi powr (3 / 2)"
proof -
  let ?b = "min (max avg lo) hi"
  have b: "lo \<le> ?b" "?b \<le> hi" using assms by simp_all
  then have nn: "0 \<le> ?b" using assms(1) by linarith
  have "lo powr (3 / 2) \<le> ?b powr (3 / 2)"
    using assms(1) b(1) by (intro powr_mono2) simp_all
  moreover have "?b powr (3 / 2) \<le> hi powr (3 / 2)"
    using nn b(2) by (intro powr_mono2) simp_all
  moreover have "Math_pow_1_5 ?b = Num (?b powr (3 / 2))"
  proof -
    have "\<not> ?b < 0" using nn by linarith
    then show ?thesis by (simp only: Math_pow_1_5_def if_False)
  qed
  ultimately show ?thesis by blast
qed

lemma angle_less:
  assumes "i < j" and "j \<le> numBars"
  shows "(real i / real numBars) * pi * 2 < (real j / real numBars) * pi * 2"
proof -
  have n: "0 < real numBars" using assms by simp
  have "real i / real numBars < real j / real numBars"
    using assms(1) n by (simp add: divide_strict_right_mono)
  then have "(real i / real numBars) * (pi * 2) < (real j / real numBars) * (pi * 2)"
    by (intro mult_strict_right_mono) simp_all
  then show ?thesis by (simp only: mult.assoc)
qed

text \<open>
  Claim C3, as the code has it. For every buffer, every bar count \<open>N\<close> and options with
  \<open>0 \<le> minBarHeight \<le> maxBarHeight\<close>, the dataset has exactly \<open>N\<close> entries. The raw
  value is clamped to [minBarHeight, maxBarHeight] first and eased with the power 1.5
  afterwards, so every height lies in [minBarHeight^1.5, maxBarHeight^1.5]. The entry
  \<open>i\<close> has the index \<open>i\<close> and the angle \<open>(i / N) \<cdot> 2\<pi>\<close>; the angles are not negative,
  stay below \<open>2\<pi>\<close> and increase strictly along the sequence.
\<close>

theorem bar_dataset_shape:
  assumes "0 \<le> minBarHeight opts" and "minBarHeight opts \<le> maxBarHeight opts"
  shows "length (createCircularVisualizationData fd numBars opts) = numBars
    \<and> (\<forall>i < numBars. \<exists>h.
          height (createCircularVisualizationData fd numBars opts ! i) = Num h
          \<and> minBarHeight opts powr (3 / 2) \<le> h \<and> h \<le> maxBarHeight opts powr (3 / 2))
    \<and> (\<forall>i < numBars.
          index (createCircularVisualizationData fd numBars opts ! i) = i
          \<and> angle (createCircularVisualizationData fd numBars opts ! i)
              = (real i / real numBars) * pi * 2
          \<and> 0 \<le> angle (createCircularVisualizationData fd numBars opts ! i)
          \<and> angle (createCircularVisualizationData fd numBars opts ! i) < 2 * pi)
    \<and> (\<forall>i j. i < j \<longrightarrow> j < numBars \<longrightarrow>
          angle (createCircularVisualizationData fd numBars opts ! i)
            < angle (createCircularVisualizationData fd numBars opts ! j))"
proof (intro conjI allI impI)
  show "length (createCircularVisualizationData fd numBars opts) = numBars"
    by (rule length_createCircularVisualizationData)
next
  fix i assume i: "i < numBars"
  from make_bar_fields(3) [of "normalized_of fd opts" numBars "length fd div numBars" opts i]
  obtain avg where
    "height (make_bar (normalized_of fd opts) numBars (length fd div numBars) opts i) =
       Math_pow_1_5 (min (max avg (minBarHeight opts)) (maxBarHeight opts))"
    by blast
  with Math_pow_1_5_clamped [OF assms, of avg]
  show "\<exists>h. height (createCircularVisualizationData fd numBars opts ! i) = Num h
          \<and> minBarHeight opts powr (3 / 2) \<le> h \<and> h \<le> maxBarHeight opts powr (3 / 2)"
    by (simp add: nth_createCircularVisualizationData [OF i])
next
  fix i assume i: "i < numBars"
  show "index (createCircularVisualizationData fd numBars opts ! i) = i"
    by (simp add: nth_createCircularVisualizationData [OF i] make_bar_fields)
  show "angle (createCircularVisualizationData fd numBars opts ! i)
          = (real i / real numBars) * pi * 2"
    by (simp add: nth_createCircularVisualizationData [OF i] make_bar_fields)
  show "0 \<le> angle (createCircularVisualizationData fd numBars opts ! i)"
    by (simp add: nth_createCircularVisualizationData [OF i] make_bar_fields)
  have "(real i / real numBars) * pi * 2 < (real numBars / real numBars) * pi * 2"
    using i by (intro angle_less) simp_all
  then show "angle (createCircularVisualizationData fd numBars opts ! i) < 2 * pi"
    using i by (simp add: nth_createCircularVisualizationData [OF i] make_bar_fields)
next
  fix i j assume ij: "i < j" "j < numBars"
  then have i: "i < numBars" by simp
  have "(real i / real numBars) * pi * 2 < (real j / real numBars) * pi * 2"
    using ij by (intro angle_less) simp_all
  then show "angle (createCircularVisualizationData fd numBars opts ! i)
          < angle (createCircularVisualizationData fd numBars opts ! j)"
    by (simp add: nth_createCircularVisualizationData [OF i]
        nth_createCircularVisualizationData [OF ij(2)] make_bar_fields)
qed


text \<open>The eased floor of the default options, and bars over silence or over no samples.\<close>

lemma powr_3_2: "0 \<le> x \<Longrightarrow> x powr (3 / 2) = x * sqrt x"
proof -
  assume x: "0 \<le> x"
  have "x powr (3 / 2) = x powr (1 + 1 / 2)" by simp
  also have "\<dots> = x powr 1 * x powr (1 / 2)" by (rule powr_add)
  also have "\<dots> = x * sqrt x" using x by (simp add: powr_half_sqrt)
  finally show ?thesis .
qed

lemma default_floor_eased:
  "111 / 10000 < (5 / 100 :: real) powr (3 / 2)" "(5 / 100 :: real) powr (3 / 2) < 112 / 10000"
proof -
  have lo: "222 / 1000 < sqrt (5 / 100 :: real)"
    by (rule real_less_rsqrt) (simp add: power2_eq_square)
  have hi: "sqrt (5 / 100 :: real) < 224 / 1000"
    by (rule real_less_lsqrt) (simp_all add: power2_eq_square)
  have e: "(5 / 100 :: real) powr (3 / 2) = 5 / 100 * sqrt (5 / 100)"
    by (rule powr_3_2) simp
  show "111 / 10000 < (5 / 100 :: real) powr (3 / 2)"
    unfolding e using lo by linarith
  show "(5 / 100 :: real) powr (3 / 2) < 112 / 10000"
    unfolding e using hi by linarith
qed

lemma segment_loop_empty: "segment_loop nd j j acc count = (acc, count)"
  by (subst segment_loop.simps) simp

lemma segment_loop_zero:
  "e \<le> length nd \<Longrightarrow> (\<forall>k < length nd. nd ! k = 0) \<Longrightarrow>
   fst (segment_loop nd j e acc count) = acc"
proof (induction nd j e acc count rule: segment_loop.induct)
  case (1 nd j e acc count)
  show ?case
  proof (cases "j < e")
    case True
    with "1.prems" have "nd ! j = 0" by simp
    with True "1.IH" [OF True "1.prems"] show ?thesis
      by (subst segment_loop.simps) simp
  next
    case False
    then show ?thesis by (subst segment_loop.simps) simp
  qed
qed

lemma log_scaled_at_zeros: "log_scaled_at (replicate n 0) i = 0"
proof (cases "n = 1")
  case True
  then show ?thesis by (simp add: log_scaled_at_def)
next
  case False
  let ?k = "\<lfloor>log 10 (real i + 1) / log 10 (real n) * real n\<rfloor>"
  show ?thesis
  proof (cases "0 \<le> ?k \<and> ?k < int n")
    case True
    then have "nat ?k < n" by linarith
    then have "byte_val (replicate n 0 ! nat ?k) = 0" by simp
    with True False show ?thesis
      unfolding log_scaled_at_def Let_def length_replicate
      by (simp only: if_True if_False simp_thms)
  next
    case no: False
    with False show ?thesis
      unfolding log_scaled_at_def Let_def length_replicate
      by (simp only: if_False simp_thms)
  qed
qed

lemma Math_round_0 [simp]: "Math_round 0 = 0"
  by (simp add: Math_round_def)

lemma to_uint8_0 [simp]: "to_uint8 0 = 0"
  by (simp add: to_uint8_def)

lemma normalized_of_zeros: "k < n \<Longrightarrow> normalized_of (replicate n 0) opts ! k = 0"
  by (simp add: normalized_of_def normalizeFrequencyData_def applyLogScaling_def
      log_scaled_at_zeros)

lemma make_bar_silent:
  "rawValue (make_bar (normalized_of (replicate n 0) opts) numBars step opts i) = 0"
  "height (make_bar (normalized_of (replicate n 0) opts) numBars step opts i) =
     Math_pow_1_5 (min (max 0 (minBarHeight opts)) (maxBarHeight opts))"
proof -
  let ?nd = "normalized_of (replicate n 0) opts"
  have z: "\<forall>k < length ?nd. ?nd ! k = 0"
    by (simp add: normalized_of_zeros)
  have "fst (segment_loop ?nd (i * step) (min (i * step + step) (length ?nd)) 0 0) = 0"
    by (rule segment_loop_zero [OF _ z]) simp
  then have avg: "(let (acc, count) =
        segment_loop ?nd (i * step) (min (i * step + step) (length ?nd)) 0 0
      in if count > 0 then acc / real count else 0) = 0"
    by (simp add: split_def Let_def)
  show "rawValue (make_bar ?nd numBars step opts i) = 0"
    using avg by (simp add: make_bar_def Let_def split_def)
  show "height (make_bar ?nd numBars step opts i) =
     Math_pow_1_5 (min (max 0 (minBarHeight opts)) (maxBarHeight opts))"
    using avg by (simp add: make_bar_def Let_def split_def)
qed

lemma bars_silent:
  "map rawValue (createCircularVisualizationData (replicate n 0) numBars opts)
     = replicate numBars 0"
  "map height (createCircularVisualizationData (replicate n 0) numBars opts)
     = replicate numBars (Math_pow_1_5 (min (max 0 (minBarHeight opts)) (maxBarHeight opts)))"
  by (simp_all add: createCircularVisualizationData_map comp_def make_bar_silent
      map_replicate_const)

lemma make_bar_step_0:
  "rawValue (make_bar nd numBars 0 opts i) = 0"
  "frequency (make_bar nd numBars 0 opts i) = 0"
  "height (make_bar nd numBars 0 opts i) =
     Math_pow_1_5 (min (max 0 (minBarHeight opts)) (maxBarHeight opts))"
  by (simp_all add: make_bar_def Let_def segment_loop_empty getFrequencyForIndex_def)

lemma Math_pow_1_5_floor:
  "0 \<le> lo \<Longrightarrow> lo \<le> hi \<Longrightarrow> Math_pow_1_5 (min (max 0 lo) hi) = Num (lo powr (3 / 2))"
  by (simp add: Math_pow_1_5_def max_def min_def)

text \<open>
  Claim C10. For a buffer shorter than the bar count \<open>N\<close> and options with
  \<open>0 \<le> minBarHeight \<le> maxBarHeight\<close> (the defaults among them), the dataset has \<open>N\<close>
  entries, the step is 0, and every bar has the raw value 0, the frequency 0 and the
  height \<open>minBarHeight^1.5\<close>, whatever the buffer holds. At the default floor 0.05 that
  height lies between 0.0111 and 0.0112.
\<close>

theorem short_buffer_bars:
  assumes "length fd < numBars"
    and "0 \<le> minBarHeight opts" and "minBarHeight opts \<le> maxBarHeight opts"
  shows "length (createCircularVisualizationData fd numBars opts) = numBars
    \<and> length fd div numBars = 0
    \<and> (\<forall>i < numBars.
          rawValue (createCircularVisualizationData fd numBars opts ! i) = 0
          \<and> frequency (createCircularVisualizationData fd numBars opts ! i) = 0
          \<and> height (createCircularVisualizationData fd numBars opts ! i)
              = Num (minBarHeight opts powr (3 / 2)))
    \<and> 111 / 10000 < minBarHeight default_options powr (3 / 2)
    \<and> minBarHeight default_options powr (3 / 2) < 112 / 10000"
proof -
  have step: "length fd div numBars = 0" using assms(1) by simp
  have d: "minBarHeight default_options = 5 / 100"
    by (simp add: default_options_def)
  show ?thesis
    using default_floor_eased
    by (simp add: length_createCircularVisualizationData nth_createCircularVisualizationData
        step make_bar_step_0 Math_pow_1_5_floor [OF assms(2,3)] d)
qed

text \<open>The statement above at a buffer of three samples and 72 bars.\<close>

theorem short_buffer_bars_witness:
  "length (createCircularVisualizationData [200, 100, 50] 72 default_options) = 72
   \<and> rawValue (createCircularVisualizationData [200, 100, 50] 72 default_options ! 0) = 0
   \<and> frequency (createCircularVisualizationData [200, 100, 50] 72 default_options ! 71) = 0
   \<and> height (createCircularVisualizationData [200, 100, 50] 72 default_options ! 71)
       = Num ((5 / 100) powr (3 / 2))"
  using short_buffer_bars [of "[200, 100, 50]" 72 default_options]
  by (simp add: default_options_def)


text \<open>The statement on the shape of the dataset at four samples and two bars.\<close>

theorem bar_dataset_shape_witness:
  "length (createCircularVisualizationData [255, 255, 0, 0] 2 default_options) = 2
   \<and> (\<exists>h. height (createCircularVisualizationData [255, 255, 0, 0] 2 default_options ! 1)
             = Num h
          \<and> (5 / 100) powr (3 / 2) \<le> h \<and> h \<le> 1)
   \<and> angle (createCircularVisualizationData [255, 255, 0, 0] 2 default_options ! 1) = pi
   \<and> angle (createCircularVisualizationData [255, 255, 0, 0] 2 default_options ! 0)
       < angle (createCircularVisualizationData [255, 255, 0, 0] 2 default_options ! 1)"
proof -
  have h: "0 \<le> minBarHeight default_options"
    "minBarHeight default_options \<le> maxBarHeight default_options"
    by (simp_all add: default_options_def)
  have d: "minBarHeight default_options = 5 / 100" "maxBarHeight default_options = 1"
    by (simp_all add: default_options_def)
  have i: "(1::nat) < 2" and j: "(0::nat) < 1" by simp_all
  from bar_dataset_shape [OF h, of "[255, 255, 0, 0]" 2] i j show ?thesis
    unfolding d by auto
qed

text \<open>
  Claim C3 as stated puts every height in [minBarHeight, maxBarHeight]. Over the silent
  buffer of 1024 samples with 72 bars and the default options the first bar has the
  height 0.05^1.5, which is below the floor 0.05.
\<close>

theorem bar_height_counterexample:
  "height (createCircularVisualizationData (replicate 1024 0) 72 default_options ! 0)
     = Num ((5 / 100) powr (3 / 2))
   \<and> (5 / 100) powr (3 / 2) < minBarHeight default_options"
proof -
  have d: "minBarHeight default_options = 5 / 100" "maxBarHeight default_options = 1"
    by (simp_all add: default_options_def)
  have "Math_pow_1_5 (min (max 0 (minBarHeight default_options))
          (maxBarHeight default_options)) = Num ((5 / 100) powr (3 / 2))"
    unfolding d by (rule Math_pow_1_5_floor) simp_all
  then have "height (createCircularVisualizationData (replicate 1024 0) 72 default_options ! 0)
     = Num ((5 / 100) powr (3 / 2))"
    by (simp add: nth_createCircularVisualizationData make_bar_silent)
  moreover have "(5 / 100) powr (3 / 2) < minBarHeight default_options"
    unfolding d using default_floor_eased(2) by linarith
  ultimately show ?thesis by blast
qed

section \<open>Spectral flatness: geometric against arithmetic mean\<close>























section \<open>Empty and silent buffers\<close>

lemma band_loop_silent:
  "(\<forall>k < length fd. fd ! k = 0) \<Longrightarrow> fst (band_loop fd i highIndex acc count) = acc"
proof (induction fd i highIndex acc count rule: band_loop.induct)
  case (1 fd i highIndex acc count)
  show ?case
  proof (cases "i \<le> highIndex \<and> i < length fd")
    case True
    with "1.prems" have z: "byte_val (fd ! i) = 0" by simp
    have "band_loop fd i highIndex acc count =
            band_loop fd (Suc i) highIndex (acc + byte_val (fd ! i)) (Suc count)"
      using True by (subst band_loop.simps) simp
    with "1.IH" [OF True "1.prems"] z show ?thesis by simp
  next
    case False
    then show ?thesis by (subst band_loop.simps) auto
  qed
qed

lemma band_loop_zeros: "fst (band_loop (replicate n 0) i highIndex acc count) = acc"
  by (rule band_loop_silent) simp

lemma band_average_zeros: "band_average (replicate n 0) sampleRate fftSize band = 0"
proof -
  have "fst (band_loop (replicate n 0)
          (nat (getIndexForFrequency (fst band) fftSize sampleRate))
          (nat (getIndexForFrequency (snd band) fftSize sampleRate)) 0 0) = 0"
    by (rule band_loop_zeros)
  then show ?thesis
    by (simp add: band_average_def Let_def split_def)
qed

lemma calculateBandAverages_zeros:
  "map snd (calculateBandAverages (replicate n 0) sampleRate fftSize) = replicate 7 0"
  by (simp add: calculateBandAverages_def FREQUENCY_BANDS_def band_average_zeros
      numeral_eq_Suc)

lemma time_sum_loop_zeros: "time_sum_loop (replicate n 0) acc = acc"
  by (induction n arbitrary: acc) simp_all

lemma stats_loop_zeros:
  "stats_loop (replicate n 0) (Num 0) (Num 0) acc = (Num 0, Num 0, acc)"
  by (induction n arbitrary: acc) simp_all

lemma stats_loop_zeros_Suc:
  "stats_loop (replicate (Suc n) 0) PosInfinity NegInfinity 0 = (Num 0, Num 0, 0)"
  by (simp add: stats_loop_zeros)

text \<open>
  On the empty buffer two values of the code are not finite defaults. The frequency group
  of the snapshot keeps the start values of its running minimum and maximum, and its
  average is 0 / 0. The rolloff is the frequency of the index \<open>-1\<close>.
\<close>

lemma calculateAudioStats_empty_frequency:
  "frequency_min (calculateAudioStats [] td) = PosInfinity"
  "frequency_max (calculateAudioStats [] td) = NegInfinity"
  "frequency_avg (calculateAudioStats [] td) = NaN"
  by (simp_all add: calculateAudioStats_def js_div_length_def split_def Let_def)

lemma calculateSpectralRolloff_empty:
  "calculateSpectralRolloff [] SAMPLE_RATE FFT_SIZE p = - (44100 / 2048)"
  by (simp add: calculateSpectralRolloff_def getFrequencyForIndex_def SAMPLE_RATE_def
      FFT_SIZE_def)


lemma bars_default_floor:
  "map height (createCircularVisualizationData (replicate n 0) numBars default_options)
     = replicate numBars (Num (minBarHeight default_options powr (3 / 2)))"
proof -
  have "Math_pow_1_5 (min (max 0 (minBarHeight default_options))
          (maxBarHeight default_options)) = Num (minBarHeight default_options powr (3 / 2))"
    by (rule Math_pow_1_5_floor) (simp_all add: default_options_def)
  then show ?thesis by (simp only: bars_silent(2))
qed

lemma calculateAudioStats_fields:
  "frequency_total (calculateAudioStats fd td) = snd (snd (stats_loop fd PosInfinity NegInfinity 0))"
  "frequency_min (calculateAudioStats fd td) = fst (stats_loop fd PosInfinity NegInfinity 0)"
  "frequency_max (calculateAudioStats fd td) = fst (snd (stats_loop fd PosInfinity NegInfinity 0))"
  "frequency_avg (calculateAudioStats fd td) =
     js_div_length (snd (snd (stats_loop fd PosInfinity NegInfinity 0))) (length fd)"
  "bands (calculateAudioStats fd td) = calculateBandAverages fd SAMPLE_RATE FFT_SIZE"
  "spectral_centroid (calculateAudioStats fd td) = calculateSpectralCentroid fd SAMPLE_RATE FFT_SIZE"
  "spectral_flatness (calculateAudioStats fd td) = calculateSpectralFlatness fd"
  "spectral_rolloff (calculateAudioStats fd td) =
     calculateSpectralRolloff fd SAMPLE_RATE FFT_SIZE (85 / 100)"
  by (simp_all add: calculateAudioStats_def split_def Let_def)

lemma calculateAudioStats_level_absent:
  "level_rms (calculateAudioStats fd None) = 0"
  "level_peak (calculateAudioStats fd None) = 0"
  "level_avg (calculateAudioStats fd None) = 0"
  "level_rms (calculateAudioStats fd (Some [])) = 0"
  "level_peak (calculateAudioStats fd (Some [])) = 0"
  "level_avg (calculateAudioStats fd (Some [])) = 0"
  by (simp_all add: calculateAudioStats_def split_def Let_def)

lemma calculateAudioStats_level_zeros:
  "level_rms (calculateAudioStats fd (Some (replicate (Suc n) 0))) = 1"
  "level_peak (calculateAudioStats fd (Some (replicate (Suc n) 0))) = 1"
  "level_avg (calculateAudioStats fd (Some (replicate (Suc n) 0))) = 0"
proof -
  have n: "0 < Suc n" by simp
  note v = calculateRMS_zeros [OF n] calculatePeak_zeros [OF n] time_sum_loop_zeros [of "Suc n"]
  show "level_rms (calculateAudioStats fd (Some (replicate (Suc n) 0))) = 1"
    "level_peak (calculateAudioStats fd (Some (replicate (Suc n) 0))) = 1"
    "level_avg (calculateAudioStats fd (Some (replicate (Suc n) 0))) = 0"
    by (simp_all add: calculateAudioStats_def split_def Let_def v del: replicate_Suc)
qed


text \<open>
  Claim C4, as the code has it. The functions of the analyzer have no failing branch:
  each returns a value on every buffer. On the empty buffer the RMS, the peak, the
  spectral centroid, the spectral flatness and the seven band averages are 0, and the
  snapshot holds these values and the total 0. On a silent buffer of \<open>n + 1\<close> samples
  the centroid and the band averages are 0, the flatness is 1 (the samples are raised to
  the floor 0.0001), the rolloff is 0 Hz, the frequency of the first bin, the RMS and
  the peak of the level functions are 1 (the level functions take 128 as silence), and
  the frequency group of the snapshot is 0 throughout. On both, the bar dataset has
  \<open>numBars\<close> entries, each with the raw value 0 and the height of the clamped value
  eased with the power 1.5, which is \<open>minBarHeight^1.5\<close> for the default options.
\<close>

theorem degenerate_buffer_values:
  "calculateRMS [] = 0
   \<and> calculatePeak [] = 0
   \<and> calculateSpectralCentroid [] SAMPLE_RATE FFT_SIZE = 0
   \<and> calculateSpectralFlatness [] = 0
   \<and> map snd (calculateBandAverages [] SAMPLE_RATE FFT_SIZE) = replicate 7 0
   \<and> length (createCircularVisualizationData [] numBars opts) = numBars
   \<and> map rawValue (createCircularVisualizationData [] numBars opts) = replicate numBars 0
   \<and> map height (createCircularVisualizationData [] numBars opts)
       = replicate numBars
           (Math_pow_1_5 (min (max 0 (minBarHeight opts)) (maxBarHeight opts)))
   \<and> map height (createCircularVisualizationData [] numBars default_options)
       = replicate numBars (Num (minBarHeight default_options powr (3 / 2)))
   \<and> level_rms (calculateAudioStats [] None) = 0
   \<and> level_peak (calculateAudioStats [] None) = 0
   \<and> level_avg (calculateAudioStats [] None) = 0
   \<and> frequency_total (calculateAudioStats [] None) = 0
   \<and> map snd (bands (calculateAudioStats [] None)) = replicate 7 0
   \<and> spectral_centroid (calculateAudioStats [] None) = 0
   \<and> spectral_flatness (calculateAudioStats [] None) = 0
   \<and> calculateRMS (replicate (Suc n) 0) = 1
   \<and> calculatePeak (replicate (Suc n) 0) = 1
   \<and> calculateSpectralCentroid (replicate (Suc n) 0) SAMPLE_RATE FFT_SIZE = 0
   \<and> calculateSpectralFlatness (replicate (Suc n) 0) = 1
   \<and> calculateSpectralRolloff (replicate (Suc n) 0) SAMPLE_RATE FFT_SIZE (85 / 100)
       = getFrequencyForIndex 0 FFT_SIZE SAMPLE_RATE
   \<and> getFrequencyForIndex 0 FFT_SIZE SAMPLE_RATE = 0
   \<and> map snd (calculateBandAverages (replicate (Suc n) 0) SAMPLE_RATE FFT_SIZE)
       = replicate 7 0
   \<and> length (createCircularVisualizationData (replicate (Suc n) 0) numBars opts) = numBars
   \<and> map rawValue (createCircularVisualizationData (replicate (Suc n) 0) numBars opts)
       = replicate numBars 0
   \<and> map height (createCircularVisualizationData (replicate (Suc n) 0) numBars opts)
       = replicate numBars
           (Math_pow_1_5 (min (max 0 (minBarHeight opts)) (maxBarHeight opts)))
   \<and> map height (createCircularVisualizationData (replicate (Suc n) 0) numBars default_options)
       = replicate numBars (Num (minBarHeight default_options powr (3 / 2)))
   \<and> frequency_min (calculateAudioStats (replicate (Suc n) 0) None) = Num 0
   \<and> frequency_max (calculateAudioStats (replicate (Suc n) 0) None) = Num 0
   \<and> frequency_avg (calculateAudioStats (replicate (Suc n) 0) None) = Num 0
   \<and> frequency_total (calculateAudioStats (replicate (Suc n) 0) None) = 0
   \<and> level_rms (calculateAudioStats (replicate (Suc n) 0) None) = 0
   \<and> level_peak (calculateAudioStats (replicate (Suc n) 0) None) = 0
   \<and> level_avg (calculateAudioStats (replicate (Suc n) 0) None) = 0
   \<and> map snd (bands (calculateAudioStats (replicate (Suc n) 0) None)) = replicate 7 0
   \<and> spectral_centroid (calculateAudioStats (replicate (Suc n) 0) None) = 0
   \<and> spectral_flatness (calculateAudioStats (replicate (Suc n) 0) None) = 1
   \<and> spectral_rolloff (calculateAudioStats (replicate (Suc n) 0) None) = 0"
proof -
  have e: "replicate 0 (0::byte) = []" by simp
  have n: "0 < Suc n" by simp
  note empty =
    calculateSpectralCentroid_zeros [of 0, unfolded e]
    calculateBandAverages_zeros [of 0, unfolded e]
    bars_silent [of 0, unfolded e]
    bars_default_floor [of 0, unfolded e]
  note silent =
    calculateRMS_zeros [OF n] calculatePeak_zeros [OF n]
    calculateSpectralCentroid_zeros [of "Suc n"]
    calculateSpectralFlatness_uniform [OF n, of 0]
    calculateSpectralRolloff_zeros [OF n]
    calculateBandAverages_zeros [of "Suc n"]
    bars_silent [of "Suc n"]
    bars_default_floor [of "Suc n"]
    stats_loop_zeros_Suc [of n]
  have f0: "getFrequencyForIndex 0 FFT_SIZE SAMPLE_RATE = 0"
    by (simp add: getFrequencyForIndex_def)
  have small: "calculateRMS [] = 0" "calculatePeak [] = 0" "calculateSpectralFlatness [] = 0"
    by (simp_all add: calculateRMS_def calculatePeak_def calculateSpectralFlatness_def)
  have avg: "js_div_length 0 (Suc n) = Num 0"
    by (simp add: js_div_length_def)
  have dfl: "Math_pow_1_5 (min (max 0 (minBarHeight default_options))
          (maxBarHeight default_options)) = Num (minBarHeight default_options powr (3 / 2))"
    by (rule Math_pow_1_5_floor) (simp_all add: default_options_def)
  show ?thesis
    by (simp add: empty silent f0 small avg dfl length_createCircularVisualizationData
        calculateAudioStats_fields calculateAudioStats_level_absent
        del: replicate_Suc)
qed

text \<open>
  Claim C4 as stated gives the defaults 0 for a ratio and the frequency of the last bin
  for the rolloff. On the silent buffer of two samples the flatness is 1, and the
  rolloff is 0 Hz while the last bin has the frequency 11025 / 512 Hz.
\<close>

theorem degenerate_buffer_counterexample:
  "calculateSpectralFlatness [0, 0] = 1
   \<and> calculateSpectralRolloff [0, 0] SAMPLE_RATE FFT_SIZE (85 / 100) = 0
   \<and> getFrequencyForIndex 1 FFT_SIZE SAMPLE_RATE = 11025 / 512"
proof -
  have r: "replicate 2 (0::byte) = [0, 0]" by (simp add: numeral_2_eq_2)
  have n: "0 < (2::nat)" by simp
  note v = calculateSpectralFlatness_uniform [OF n, of 0, unfolded r]
    calculateSpectralRolloff_zeros [OF n, unfolded r]
  show ?thesis
    by (simp add: v getFrequencyForIndex_def SAMPLE_RATE_def FFT_SIZE_def)
qed

end
